theory Spec2Isabelle
  imports Complex_Main
begin

section \<open>Values\<close>

subsection \<open>Floating-point elements and tensors\<close>

text \<open>
  A tensor element is a finite number or one of the three non-finite values of IEEE
  arithmetic. Finite arithmetic is exact (rounding and overflow are not modelled); the
  non-finite values propagate as IEEE prescribes.
\<close>

datatype fval = Fin real | PInf | NInf | NaN

text \<open>A tensor (and a NumPy array): its shape and its elements in row-major order.\<close>

record tensor =
  shape :: "nat list"
  elems :: "fval list"

subsection \<open>Python objects\<close>

text \<open>
  An object of the model's attribute hierarchy: its identity, what it is (\<open>None\<close>, an
  \<open>nn.Conv2d\<close>, another \<open>nn.Module\<close>, anything else) and its attributes in
  definition order.
\<close>

datatype kind = KNone | KConv2d | KModule | KOther

datatype pyobj = PyObj (oid: nat) (kind: kind) (attrs: "(string \<times> pyobj) list")

subsection \<open>Exceptions and printed lines\<close>

text \<open>
  The two \<open>ValueError\<close>s of \<open>GradCAM.__init__\<close> carry their message; the other
  exceptions are raised by Python, PyTorch or the model's own code (\<open>PassError\<close>).
\<close>

datatype exn =
    Target_layer_not_found string
  | Could_not_find_target_conv_layer
  | AttributeError
  | IndexError
  | RuntimeError
  | Too_many_dimensions
  | PassError nat

datatype message =
    No_target_layer_set
  | Not_captured
  | Unexpected_tensor_dims "nat list" "nat list"
  | Auto_selected string

section \<open>State\<close>

text \<open>
  What lives outside the engine: the model's training flag, whether its parameters hold
  accumulated gradients, the number of forward hooks registered on each module (by
  identity), and the lines printed so far.
\<close>

record world =
  training :: bool
  param_grads :: bool
  fwd_hooks :: "nat \<Rightarrow> nat"
  stdout :: "message list"

text \<open>The fields of a \<open>GradCAM\<close> instance (the model itself is passed alongside).\<close>

record engine =
  target_module :: "pyobj option"
  target_module_name :: "string option"
  activations :: "tensor option"
  gradients :: "tensor option"

section \<open>Layer resolution\<close>

definition is_module :: "pyobj \<Rightarrow> bool" where
  "is_module x \<longleftrightarrow> kind x = KConv2d \<or> kind x = KModule"

definition is_conv2d :: "pyobj \<Rightarrow> bool" where
  "is_conv2d x \<longleftrightarrow> kind x = KConv2d"

definition getattr_opt :: "pyobj \<Rightarrow> string \<Rightarrow> pyobj option" where
  "getattr_opt x n = map_of (attrs x) n"

text \<open>\<open>name.split(".")\<close>: never empty; an empty name gives one empty segment.\<close>

fun split_dot :: "string \<Rightarrow> string list" where
  "split_dot [] = [[]]"
| "split_dot (c # cs) =
     (if c = CHR ''.'' then [] # split_dot cs
      else (case split_dot cs of p # ps \<Rightarrow> (c # p) # ps | [] \<Rightarrow> [[c]]))"

text \<open>The loop of \<open>_get_module_by_name\<close>: \<open>None\<close> as soon as a segment is missing.\<close>

fun walk :: "pyobj \<Rightarrow> string list \<Rightarrow> pyobj option" where
  "walk current [] = Some current"
| "walk current (part # parts) =
     (case getattr_opt current part of
        None \<Rightarrow> None
      | Some nxt \<Rightarrow> walk nxt parts)"

definition get_module_by_name :: "pyobj \<Rightarrow> string \<Rightarrow> pyobj option" where
  "get_module_by_name model name = walk model (split_dot name)"

text \<open>
  \<open>nn.Module.named_modules\<close>: the module itself under the current prefix, then its
  registered sub-modules in definition order, depth first; a module already seen (by
  identity, the \<open>memo\<close>) is not listed again.
\<close>

definition sub_prefix :: "string \<Rightarrow> string \<Rightarrow> string" where
  "sub_prefix prefix name = prefix @ (if prefix = [] then [] else ''.'') @ name"

fun named_modules_from :: "nat list \<Rightarrow> string \<Rightarrow> pyobj \<Rightarrow> nat list \<times> (string \<times> pyobj) list"
  and named_modules_of_items ::
    "nat list \<Rightarrow> string \<Rightarrow> (string \<times> pyobj) list \<Rightarrow> nat list \<times> (string \<times> pyobj) list"
where
  "named_modules_from memo prefix (PyObj i k items) =
     (if i \<in> set memo then (memo, [])
      else (case named_modules_of_items (i # memo) prefix items of
              (memo', below) \<Rightarrow> (memo', (prefix, PyObj i k items) # below)))"
| "named_modules_of_items memo prefix [] = (memo, [])"
| "named_modules_of_items memo prefix ((name, child) # rest) =
     (if kind child = KConv2d \<or> kind child = KModule
      then (case named_modules_from memo (sub_prefix prefix name) child of
              (memo1, xs) \<Rightarrow>
                (case named_modules_of_items memo1 prefix rest of
                   (memo2, ys) \<Rightarrow> (memo2, xs @ ys)))
      else named_modules_of_items memo prefix rest)"

definition named_modules :: "pyobj \<Rightarrow> (string \<times> pyobj) list" where
  "named_modules m = snd (named_modules_from [] [] m)"

text \<open>The two scans of \<open>_auto_select_target_layer\<close>.\<close>

definition features_candidates :: "pyobj \<Rightarrow> (string \<times> pyobj) list" where
  "features_candidates model =
     (case getattr_opt model ''features'' of
        None \<Rightarrow> []
      | Some features \<Rightarrow>
          if is_module features
          then map (\<lambda>(name, md). (''features.'' @ name, md))
                 (filter (\<lambda>(name, md). is_conv2d md) (named_modules features))
          else [])"

definition model_candidates :: "pyobj \<Rightarrow> (string \<times> pyobj) list" where
  "model_candidates model = filter (\<lambda>(name, md). is_conv2d md) (named_modules model)"

definition candidates_of :: "pyobj \<Rightarrow> (string \<times> pyobj) list" where
  "candidates_of model =
     (if features_candidates model = [] then model_candidates model
      else features_candidates model)"

text \<open>
  \<open>_auto_select_target_layer\<close>: the last candidate, whose name is printed, or no target.
\<close>

definition auto_select_target_layer ::
  "pyobj \<Rightarrow> world \<Rightarrow> world \<times> string option \<times> pyobj option" where
  "auto_select_target_layer model w =
     (let candidates = candidates_of model in
      if candidates \<noteq> []
      then (case last candidates of
              (name, md) \<Rightarrow>
                (w\<lparr>stdout := stdout w @ [Auto_selected name]\<rparr>, Some name, Some md))
      else (w, None, None))"

text \<open>
  \<open>GradCAM.__init__\<close>. \<open>model.eval()\<close> comes first: it clears the training flag
  (and is an \<open>AttributeError\<close> on something that is not a module).
\<close>

definition eval_mode :: "world \<Rightarrow> world" where
  "eval_mode w = w\<lparr>training := False\<rparr>"

definition init :: "pyobj \<Rightarrow> string option \<Rightarrow> world \<Rightarrow> world \<times> (exn + engine)" where
  "init model target_layer w0 =
     (if \<not> is_module model then (w0, Inl AttributeError)
      else
        let w = eval_mode w0 in
        (case target_layer of
           Some path \<Rightarrow>
             (case get_module_by_name model path of
                None \<Rightarrow> (w, Inl (Target_layer_not_found path))
              | Some md \<Rightarrow>
                  if kind md = KNone then (w, Inl (Target_layer_not_found path))
                  else (w, Inr \<lparr>target_module = Some md, target_module_name = Some path,
                                 activations = None, gradients = None\<rparr>))
         | None \<Rightarrow>
             (case auto_select_target_layer model w of
                (w', name, md) \<Rightarrow>
                  if md = None then (w', Inl Could_not_find_target_conv_layer)
                  else (w', Inr \<lparr>target_module = md, target_module_name = name,
                                  activations = None, gradients = None\<rparr>))))"

section \<open>Tensor arithmetic\<close>

subsection \<open>Elements\<close>

fun is_finite :: "fval \<Rightarrow> bool" where
  "is_finite (Fin x) = True"
| "is_finite v = False"

fun fadd :: "fval \<Rightarrow> fval \<Rightarrow> fval" where
  "fadd NaN y = NaN"
| "fadd x NaN = NaN"
| "fadd PInf NInf = NaN"
| "fadd NInf PInf = NaN"
| "fadd PInf y = PInf"
| "fadd x PInf = PInf"
| "fadd NInf y = NInf"
| "fadd x NInf = NInf"
| "fadd (Fin a) (Fin b) = Fin (a + b)"

text \<open>The sign of a finite factor decides the sign of an infinite product; zero times infinity is NaN.\<close>

definition signed_inf :: "bool \<Rightarrow> fval" where
  "signed_inf positive = (if positive then PInf else NInf)"

fun fmul :: "fval \<Rightarrow> fval \<Rightarrow> fval" where
  "fmul NaN y = NaN"
| "fmul x NaN = NaN"
| "fmul PInf PInf = PInf"
| "fmul PInf NInf = NInf"
| "fmul NInf PInf = NInf"
| "fmul NInf NInf = PInf"
| "fmul PInf (Fin b) = (if b = 0 then NaN else signed_inf (0 < b))"
| "fmul NInf (Fin b) = (if b = 0 then NaN else signed_inf (b < 0))"
| "fmul (Fin a) PInf = (if a = 0 then NaN else signed_inf (0 < a))"
| "fmul (Fin a) NInf = (if a = 0 then NaN else signed_inf (a < 0))"
| "fmul (Fin a) (Fin b) = Fin (a * b)"

text \<open>
  Division by a finite divisor, the only one the program uses (an element count, or a
  positive maximum plus epsilon). Zero has no sign here, so a division by zero takes the
  sign of the dividend.
\<close>

fun fdiv :: "fval \<Rightarrow> real \<Rightarrow> fval" where
  "fdiv NaN d = NaN"
| "fdiv PInf d = signed_inf (0 \<le> d)"
| "fdiv NInf d = signed_inf (d < 0)"
| "fdiv (Fin a) d =
     (if d = 0 then (if a = 0 then NaN else signed_inf (0 < a)) else Fin (a / d))"

fun frelu :: "fval \<Rightarrow> fval" where
  "frelu (Fin x) = Fin (max 0 x)"
| "frelu PInf = PInf"
| "frelu NInf = Fin 0"
| "frelu NaN = NaN"

fun fsum :: "fval list \<Rightarrow> fval" where
  "fsum [] = Fin 0"
| "fsum (x # xs) = fadd x (fsum xs)"

definition fmean :: "fval list \<Rightarrow> fval" where
  "fmean xs = fdiv (fsum xs) (real (length xs))"

text \<open>The value of a finite element (read only where \<open>is_finite\<close> has been checked).\<close>

fun fin_val :: "fval \<Rightarrow> real" where
  "fin_val (Fin x) = x"
| "fin_val v = 0"

subsection \<open>The operations of \<open>get_cam\<close> on tensors\<close>

text \<open>\<open>t[0]\<close>: the first slice along the leading dimension, an \<open>IndexError\<close> when there is none.\<close>

definition index0 :: "tensor \<Rightarrow> exn + tensor" where
  "index0 t =
     (case shape t of
        [] \<Rightarrow> Inl IndexError
      | n # rest \<Rightarrow>
          if n = 0 then Inl IndexError
          else Inr \<lparr>shape = rest, elems = take (prod_list rest) (elems t)\<rparr>)"

text \<open>The \<open>k\<close> consecutive blocks of \<open>n\<close> elements of a row-major list.\<close>

fun chunks :: "nat \<Rightarrow> nat \<Rightarrow> 'a list \<Rightarrow> 'a list list" where
  "chunks n 0 xs = []"
| "chunks n (Suc k) xs = take n xs # chunks n k (drop n xs)"

text \<open>The channels of a \<open>(C, H, W)\<close> tensor, each flattened.\<close>

definition channels :: "tensor \<Rightarrow> fval list list" where
  "channels t =
     (case shape t of
        [c, h, w] \<Rightarrow> chunks (h * w) c (elems t)
      | _ \<Rightarrow> [])"

text \<open>\<open>torch.mean(grads, dim=(1, 2))\<close>: one weight per channel.\<close>

definition mean_hw :: "tensor \<Rightarrow> fval list" where
  "mean_hw g = map fmean (channels g)"

definition scale :: "fval \<Rightarrow> fval list \<Rightarrow> fval list" where
  "scale w xs = map (fmul w) xs"

text \<open>
  \<open>weights[:, None, None] * acts\<close>: a \<open>(C', 1, 1)\<close> tensor times a \<open>(C, H, W)\<close>
  tensor. The channel counts must agree unless one of them is 1, which is then repeated.
\<close>

definition weighted_channels :: "fval list \<Rightarrow> fval list list \<Rightarrow> exn + fval list list" where
  "weighted_channels weights chans =
     (if length weights = length chans then Inr (map2 scale weights chans)
      else if length weights = 1 then Inr (map (scale (hd weights)) chans)
      else if length chans = 1 then Inr (map (\<lambda>w. scale w (hd chans)) weights)
      else Inl RuntimeError)"

text \<open>\<open>torch.sum(_, dim=0)\<close> of channels of \<open>n\<close> elements: their element-wise sum.\<close>

definition sum_channels :: "nat \<Rightarrow> fval list list \<Rightarrow> fval list" where
  "sum_channels n chans = foldr (map2 fadd) chans (replicate n (Fin 0))"

text \<open>
  Lines 131 to 138 of \<open>get_cam\<close>, for two captured tensors of rank 4: the rectified,
  not yet normalised map.
\<close>

definition cam_raw :: "tensor \<Rightarrow> tensor \<Rightarrow> exn + tensor" where
  "cam_raw acts4 grads4 =
     (case index0 acts4 of
        Inl e \<Rightarrow> Inl e
      | Inr acts \<Rightarrow>
          (case index0 grads4 of
             Inl e \<Rightarrow> Inl e
           | Inr grads \<Rightarrow>
               (case weighted_channels (mean_hw grads) (channels acts) of
                  Inl e \<Rightarrow> Inl e
                | Inr weighted \<Rightarrow>
                    let hw = prod_list (tl (shape acts)) in
                    Inr \<lparr>shape = tl (shape acts),
                         elems = map frelu (sum_channels hw weighted)\<rparr>)))"

text \<open>
  Lines 140 to 144: \<open>torch.isfinite(cam).all() and cam.max() > 0\<close> decide between the
  division by the maximum plus \<open>1e-12\<close> and the zero map. \<open>cam.max()\<close> of a tensor
  without elements is a \<open>RuntimeError\<close>.
\<close>

definition eps :: real where
  "eps = 1 / 10 ^ 12"

definition all_finite :: "fval list \<Rightarrow> bool" where
  "all_finite xs = list_all is_finite xs"

definition max_val :: "fval list \<Rightarrow> real" where
  "max_val xs = foldl max (fin_val (hd xs)) (map fin_val (tl xs))"

definition zeros_like :: "tensor \<Rightarrow> tensor" where
  "zeros_like t = \<lparr>shape = shape t, elems = map (\<lambda>_. Fin 0) (elems t)\<rparr>"

definition normalize :: "tensor \<Rightarrow> exn + tensor" where
  "normalize cam =
     (if all_finite (elems cam)
      then (if elems cam = [] then Inl RuntimeError
            else if 0 < max_val (elems cam)
            then Inr \<lparr>shape = shape cam,
                      elems = map (\<lambda>x. fdiv x (max_val (elems cam) + eps)) (elems cam)\<rparr>
            else Inr (zeros_like cam))
      else Inr (zeros_like cam))"

section \<open>One call of \<open>get_cam\<close>\<close>

subsection \<open>What the model and autograd do\<close>

text \<open>The scores returned by the model: a \<open>(N, C)\<close> tensor, row-major.\<close>

record logits =
  n_batch :: nat
  n_classes :: nat
  scores :: "fval list"

text \<open>
  The backward pass from one class score: the gradient that reaches the hooked output
  (if backpropagation reaches it), whether parameters received gradients, and the
  exception it ends with, if any.
\<close>

record backward_run =
  grad_output :: "tensor option"
  fills_param_grads :: bool
  backward_raises :: "exn option"

text \<open>
  The forward pass on the given input: the output of the target layer handed to the
  forward hook (if the layer is executed), and the exception or the scores the call
  \<open>self.model(input_tensor)\<close> ends with; then the backward pass for each class index.
\<close>

record pass =
  layer_output :: "tensor option"
  forward :: "exn + logits"
  backward :: "nat \<Rightarrow> backward_run"

subsection \<open>Class selection\<close>

fun fless :: "fval \<Rightarrow> fval \<Rightarrow> bool" where
  "fless NaN y = False"
| "fless x NaN = False"
| "fless PInf y = False"
| "fless x PInf = True"
| "fless x NInf = False"
| "fless NInf y = True"
| "fless (Fin a) (Fin b) = (a < b)"

text \<open>\<open>torch.argmax\<close>: the first NaN if there is one, else the first maximal element.\<close>

definition beats :: "fval \<Rightarrow> fval \<Rightarrow> bool" where
  "beats x best \<longleftrightarrow> (x = NaN \<and> best \<noteq> NaN) \<or> fless best x"

fun argmax_loop :: "nat \<Rightarrow> fval \<Rightarrow> nat \<Rightarrow> fval list \<Rightarrow> nat" where
  "argmax_loop bi bv i [] = bi"
| "argmax_loop bi bv i (x # xs) =
     (if beats x bv then argmax_loop i x (Suc i) xs else argmax_loop bi bv (Suc i) xs)"

definition argmax :: "fval list \<Rightarrow> nat" where
  "argmax xs = argmax_loop 0 (hd xs) 1 (tl xs)"

text \<open>
  \<open>int(torch.argmax(logits, dim=1).item())\<close> when no class is given: the reduction
  needs a class, \<open>item()\<close> needs exactly one row.
\<close>

definition select_class :: "logits \<Rightarrow> int option \<Rightarrow> exn + int" where
  "select_class lg target_class =
     (case target_class of
        Some t \<Rightarrow> Inr t
      | None \<Rightarrow>
          if n_classes lg = 0 then Inl IndexError
          else if n_batch lg \<noteq> 1 then Inl RuntimeError
          else Inr (int (argmax (scores lg))))"

text \<open>
  \<open>logits[:, target_class]\<close>: Python indexing, negative indices count from the end.
  (An index that does not fit 64 bits is refused by PyTorch with another kind of
  exception; it is an \<open>IndexError\<close> here like every index out of range.)
\<close>

definition column_index :: "logits \<Rightarrow> int \<Rightarrow> exn + nat" where
  "column_index lg t =
     (let c = int (n_classes lg) in
      if t < - c \<or> c \<le> t then Inl IndexError
      else Inr (nat (if t < 0 then t + c else t)))"

subsection \<open>The steps\<close>

definition clear_captures :: "engine \<Rightarrow> engine" where
  "clear_captures e = e\<lparr>activations := None, gradients := None\<rparr>"

definition register_forward_hook :: "pyobj \<Rightarrow> world \<Rightarrow> exn + world" where
  "register_forward_hook md w =
     (if is_module md
      then Inr (w\<lparr>fwd_hooks := (fwd_hooks w)(oid md := fwd_hooks w (oid md) + 1)\<rparr>)
      else Inl AttributeError)"

definition remove_hook :: "pyobj \<Rightarrow> world \<Rightarrow> world" where
  "remove_hook md w = w\<lparr>fwd_hooks := (fwd_hooks w)(oid md := fwd_hooks w (oid md) - 1)\<rparr>"

definition zero_grad :: "world \<Rightarrow> world" where
  "zero_grad w = w\<lparr>param_grads := False\<rparr>"

text \<open>\<open>fwd_hook\<close> stores the layer's output when the layer is executed.\<close>

definition forward_pass :: "pass \<Rightarrow> engine \<Rightarrow> engine \<times> (exn + logits)" where
  "forward_pass p e =
     ((case layer_output p of
         None \<Rightarrow> e
       | Some out \<Rightarrow> e\<lparr>activations := Some out\<rparr>),
      forward p)"

text \<open>
  \<open>grad_hook\<close> exists only on an output the forward hook has seen; it stores the
  gradient when backpropagation reaches that output.
\<close>

definition backward_pass ::
  "pass \<Rightarrow> nat \<Rightarrow> world \<Rightarrow> engine \<Rightarrow> world \<times> engine \<times> (exn + unit)" where
  "backward_pass p j w e =
     (let b = backward p j in
      (w\<lparr>param_grads := param_grads w \<or> fills_param_grads b\<rparr>,
       (case (layer_output p, grad_output b) of
          (Some out, Some g) \<Rightarrow> e\<lparr>gradients := Some g\<rparr>
        | _ \<Rightarrow> e),
       (case backward_raises b of
          Some x \<Rightarrow> Inl x
        | None \<Rightarrow> Inr ())))"

text \<open>Lines 100 to 112: forward pass, class selection, \<open>zero_grad\<close>, backward pass.\<close>

definition run_passes ::
  "pass \<Rightarrow> int option \<Rightarrow> world \<Rightarrow> engine \<Rightarrow> world \<times> engine \<times> (exn + unit)" where
  "run_passes p target_class w e =
     (case forward_pass p e of
        (e1, Inl x) \<Rightarrow> (w, e1, Inl x)
      | (e1, Inr lg) \<Rightarrow>
          (case select_class lg target_class of
             Inl x \<Rightarrow> (w, e1, Inl x)
           | Inr t \<Rightarrow>
               (case column_index lg t of
                  Inl x \<Rightarrow> (zero_grad w, e1, Inl x)
                | Inr j \<Rightarrow> backward_pass p j (zero_grad w) e1)))"

text \<open>Lines 120 to 147: the two checks, the map and its normalisation.\<close>

definition finish :: "world \<Rightarrow> engine \<Rightarrow> world \<times> engine \<times> (exn + tensor option)" where
  "finish w e =
     (case (activations e, gradients e) of
        (Some acts, Some grads) \<Rightarrow>
          if length (shape acts) \<noteq> 4 \<or> length (shape grads) \<noteq> 4
          then (w\<lparr>stdout := stdout w @ [Unexpected_tensor_dims (shape acts) (shape grads)]\<rparr>,
                e, Inr None)
          else (case cam_raw acts grads of
                  Inl x \<Rightarrow> (w, e, Inl x)
                | Inr cam \<Rightarrow>
                    (case normalize cam of
                       Inl x \<Rightarrow> (w, e, Inl x)
                     | Inr heatmap \<Rightarrow> (w, e, Inr (Some heatmap))))
      | _ \<Rightarrow> (w\<lparr>stdout := stdout w @ [Not_captured]\<rparr>, e, Inr None))"

text \<open>
  \<open>GradCAM.get_cam\<close>: the new world and engine, and the exception raised (\<open>Inl\<close>) or
  the value returned (\<open>Inr\<close>: \<open>None\<close> or the heatmap).
\<close>

definition get_cam ::
  "pass \<Rightarrow> int option \<Rightarrow> world \<Rightarrow> engine \<Rightarrow> world \<times> engine \<times> (exn + tensor option)" where
  "get_cam p target_class w e =
     (case target_module e of
        None \<Rightarrow> (w\<lparr>stdout := stdout w @ [No_target_layer_set]\<rparr>, e, Inr None)
      | Some md \<Rightarrow>
          (case register_forward_hook md w of
             Inl x \<Rightarrow> (w, clear_captures e, Inl x)
           | Inr w1 \<Rightarrow>
               (case run_passes p target_class w1 (clear_captures e) of
                  (w2, e2, Inl x) \<Rightarrow> (w2, e2, Inl x)
                | (w2, e2, Inr u) \<Rightarrow> finish (remove_hook md w2) e2)))"

section \<open>Overlay rendering\<close>

subsection \<open>Images\<close>

text \<open>
  A PIL image in one of the modes the program meets: its size (width, height) and its
  pixels in row-major order, every channel an 8-bit value.
\<close>

datatype pixels =
    L "nat list"
  | RGB "(nat \<times> nat \<times> nat) list"
  | RGBA "(nat \<times> nat \<times> nat \<times> nat) list"

record image =
  im_size :: "nat \<times> nat"
  im_data :: pixels

definition convert_rgb :: "image \<Rightarrow> image" where
  "convert_rgb im =
     im\<lparr>im_data :=
          (case im_data im of
             L vs \<Rightarrow> RGB (map (\<lambda>v. (v, v, v)) vs)
           | RGB ps \<Rightarrow> RGB ps
           | RGBA ps \<Rightarrow> RGB (map (\<lambda>(r, g, b, a). (r, g, b)) ps))\<rparr>"

definition convert_rgba :: "image \<Rightarrow> image" where
  "convert_rgba im =
     im\<lparr>im_data :=
          (case im_data im of
             L vs \<Rightarrow> RGBA (map (\<lambda>v. (v, v, v, 255)) vs)
           | RGB ps \<Rightarrow> RGBA (map (\<lambda>(r, g, b). (r, g, b, 255)) ps)
           | RGBA ps \<Rightarrow> RGBA ps)\<rparr>"

definition is_rgb :: "image \<Rightarrow> bool" where
  "is_rgb im = (case im_data im of RGB ps \<Rightarrow> True | _ \<Rightarrow> False)"

subsection \<open>From the heatmap to 8-bit intensities\<close>

text \<open>\<open>heatmap[..., 0]\<close> on an array of rank 3: the first entry of every innermost row.\<close>

fun every_nth :: "nat \<Rightarrow> nat \<Rightarrow> 'a list \<Rightarrow> 'a list" where
  "every_nth k 0 xs = []"
| "every_nth k (Suc n) xs = (case xs of [] \<Rightarrow> [] | x # _ \<Rightarrow> x # every_nth k n (drop k xs))"

definition first_of_last_axis :: "tensor \<Rightarrow> exn + tensor" where
  "first_of_last_axis t =
     (case shape t of
        [h, w, k] \<Rightarrow>
          if k = 0 then Inl IndexError
          else Inr \<lparr>shape = [h, w], elems = every_nth k (h * w) (elems t)\<rparr>
      | _ \<Rightarrow> Inr t)"

fun clip01 :: "fval \<Rightarrow> fval" where
  "clip01 (Fin x) = Fin (min 1 (max 0 x))"
| "clip01 PInf = Fin 1"
| "clip01 NInf = Fin 0"
| "clip01 NaN = NaN"

text \<open>
  Single precision. \<open>round_f32\<close> rounds a real \<open>x\<close> with \<open>0 \<le> x < 256\<close> to the
  nearest \<open>float32\<close>, ties to even: \<open>x\<close> is doubled until it reaches 128 (at most 133
  times, where the subnormal numbers begin), which gives the weight \<open>1 / 2 ^ (16 + k)\<close>
  of the last of its 24 significant bits.
\<close>

fun doublings :: "nat \<Rightarrow> real \<Rightarrow> nat" where
  "doublings 0 x = 0"
| "doublings (Suc fuel) x = (if 128 \<le> x then 0 else Suc (doublings fuel (2 * x)))"

definition round_half_even :: "real \<Rightarrow> int" where
  "round_half_even y =
     (let f = \<lfloor>y\<rfloor>; d = y - of_int f
      in if d < 1 / 2 then f else if 1 / 2 < d then f + 1 else if even f then f else f + 1)"

definition round_f32 :: "real \<Rightarrow> real" where
  "round_f32 x =
     (let s = 2 ^ (16 + doublings 133 x) in of_int (round_half_even (x * s)) / s)"

text \<open>
  \<open>(heatmap * 255.0 + 0.5).astype(np.uint8)\<close> on a clipped value, in \<open>float32\<close>
  as NumPy computes it: the value as a \<open>float32\<close> (\<open>astype(np.float32)\<close>; it commutes
  with the clipping, 0 and 1 being \<open>float32\<close> values), the product and the sum, each
  rounded, then truncation. The cast of NaN is left to the platform by NumPy; it is 0
  here.
\<close>

fun to_uint8 :: "fval \<Rightarrow> nat" where
  "to_uint8 (Fin y) = nat \<lfloor>round_f32 (round_f32 (round_f32 y * 255) + 1 / 2)\<rfloor> mod 256"
| "to_uint8 v = 0"

text \<open>
  \<open>Image.fromarray(_, mode="L")\<close>: at most two dimensions; one dimension gives a
  column of width 1.
\<close>

definition fromarray_L :: "nat list \<Rightarrow> nat list \<Rightarrow> exn + image" where
  "fromarray_L shp vals =
     (case shp of
        [] \<Rightarrow> Inl IndexError
      | [n] \<Rightarrow> Inr \<lparr>im_size = (1, n), im_data = L vals\<rparr>
      | [h, w] \<Rightarrow> Inr \<lparr>im_size = (w, h), im_data = L vals\<rparr>
      | _ \<Rightarrow> Inl Too_many_dimensions)"

text \<open>
  \<open>Image.resize(size, resample=BILINEAR)\<close>: a copy when the size is already the
  requested one; otherwise Pillow's bilinear resampling \<open>resample\<close> computes the pixels.
\<close>

definition resize :: "(nat \<times> nat \<Rightarrow> image \<Rightarrow> nat list) \<Rightarrow> nat \<times> nat \<Rightarrow> image \<Rightarrow> image" where
  "resize resample sz im =
     (if im_size im = sz then im
      else \<lparr>im_size = sz, im_data = L (resample sz im)\<rparr>)"

subsection \<open>The alpha channel\<close>

text \<open>
  The double-precision product \<open>v * (alpha_scale / 255.0)\<close> of an 8-bit \<open>v\<close>. The
  ratio \<open>alpha_scale / 255.0\<close> is a double in \<open>[1/2, 1)\<close>, given by its numerator over
  \<open>2 ^ 53\<close>; the exact product is rounded to 53 significant bits, ties to even.
\<close>

fun bit_length :: "nat \<Rightarrow> nat" where
  "bit_length n = (if n = 0 then 0 else Suc (bit_length (n div 2)))"

definition round_sig53 :: "nat \<Rightarrow> nat" where
  "round_sig53 n =
     (if bit_length n \<le> 53 then n
      else
        let s = bit_length n - 53;
            q = n div 2 ^ s;
            r = n mod 2 ^ s;
            half = 2 ^ (s - 1)
        in (if half < r \<or> (r = half \<and> odd q) then q + 1 else q) * 2 ^ s)"

text \<open>\<open>int(min(255, max(0, v * (alpha_scale / 255.0))))\<close>.\<close>

definition alpha_of :: "nat \<Rightarrow> nat \<Rightarrow> nat" where
  "alpha_of ratio v = min 255 (max 0 (round_sig53 (v * ratio) div 2 ^ 53))"

text \<open>The double \<open>192.0 / 255.0\<close>, the ratio of the default \<open>alpha_scale\<close>.\<close>

definition default_ratio :: nat where
  "default_ratio = 6781891203569688"

subsection \<open>Compositing\<close>

text \<open>
  One pixel of \<open>Image.alpha_composite(dst, src)\<close>, in Pillow's integer arithmetic
  with 7 extra bits of precision.
\<close>

definition shift_for_div255 :: "nat \<Rightarrow> nat" where
  "shift_for_div255 a = ((a div 256) + a) div 256"

definition blend_channel :: "nat \<Rightarrow> nat \<Rightarrow> nat \<Rightarrow> nat \<Rightarrow> nat" where
  "blend_channel coef1 coef2 s d =
     shift_for_div255 (s * coef1 + d * coef2 + 128 * 2 ^ 7) div 2 ^ 7"

fun composite_pixel :: "nat \<times> nat \<times> nat \<times> nat \<Rightarrow> nat \<times> nat \<times> nat \<times> nat \<Rightarrow> nat \<times> nat \<times> nat \<times> nat" where
  "composite_pixel (dr, dg, db, da) (sr, sg, sb, sa) =
     (if sa = 0 then (dr, dg, db, da)
      else
        let blend = da * (255 - sa);
            outa255 = sa * 255 + blend;
            coef1 = sa * 255 * 255 * 2 ^ 7 div outa255;
            coef2 = 255 * 2 ^ 7 - coef1
        in (blend_channel coef1 coef2 sr dr,
            blend_channel coef1 coef2 sg dg,
            blend_channel coef1 coef2 sb db,
            shift_for_div255 (outa255 + 128)))"

definition rgba_pixels :: "image \<Rightarrow> (nat \<times> nat \<times> nat \<times> nat) list" where
  "rgba_pixels im = (case im_data (convert_rgba im) of RGBA ps \<Rightarrow> ps | _ \<Rightarrow> [])"

definition gray_pixels :: "image \<Rightarrow> nat list" where
  "gray_pixels im = (case im_data im of L vs \<Rightarrow> vs | _ \<Rightarrow> [])"

text \<open>
  The red layer whose alpha is the resized intensity pushed through the lookup table,
  composited over the base image: the second half of \<open>_rgba_heatmap_overlay\<close>, shared
  with the fallback of \<open>GradCAM.overlay\<close>.
\<close>

definition tint_over :: "nat \<Rightarrow> image \<Rightarrow> image \<Rightarrow> image" where
  "tint_over ratio base hm_img =
     \<lparr>im_size = im_size base,
      im_data = RGBA (map2 composite_pixel (rgba_pixels base)
                        (map (\<lambda>v. (255, 0, 0, alpha_of ratio v)) (gray_pixels hm_img)))\<rparr>"

subsection \<open>The three rendering functions\<close>

definition quantize :: "tensor \<Rightarrow> nat list" where
  "quantize heatmap = map (\<lambda>x. to_uint8 (clip01 x)) (elems heatmap)"

text \<open>
  \<open>utils._rgba_heatmap_overlay\<close>; \<open>ratio\<close> is the double \<open>alpha_scale / 255.0\<close>.
\<close>

definition rgba_heatmap_overlay ::
  "(nat \<times> nat \<Rightarrow> image \<Rightarrow> nat list) \<Rightarrow> nat \<Rightarrow> image \<Rightarrow> tensor \<Rightarrow> exn + image" where
  "rgba_heatmap_overlay resample ratio base_rgb heatmap0 =
     (case first_of_last_axis heatmap0 of
        Inl x \<Rightarrow> Inl x
      | Inr heatmap \<Rightarrow>
          (case fromarray_L (shape heatmap) (quantize heatmap) of
             Inl x \<Rightarrow> Inl x
           | Inr hm_img \<Rightarrow>
               Inr (tint_over ratio base_rgb (resize resample (im_size base_rgb) hm_img))))"

text \<open>
  \<open>utils.tensor_to_base64_overlay\<close>; \<open>encode_png\<close> is the base64 text of the PNG
  file of an image.
\<close>

definition tensor_to_base64_overlay ::
  "(image \<Rightarrow> string) \<Rightarrow> (nat \<times> nat \<Rightarrow> image \<Rightarrow> nat list) \<Rightarrow> image \<Rightarrow> tensor option
     \<Rightarrow> exn + string" where
  "tensor_to_base64_overlay encode_png resample original_pil heatmap_np =
     (case heatmap_np of
        None \<Rightarrow> Inr []
      | Some heatmap \<Rightarrow>
          let base_rgb = (if \<not> is_rgb original_pil then convert_rgb original_pil
                          else original_pil)
          in (case rgba_heatmap_overlay resample default_ratio base_rgb heatmap of
                Inl x \<Rightarrow> Inl x
              | Inr composited \<Rightarrow> Inr (''data:image/png;base64,'' @ encode_png composited)))"

text \<open>
  \<open>GradCAM.overlay\<close>; \<open>utils_imported\<close> tells whether the import of
  \<open>_rgba_heatmap_overlay\<close> at the top of the module succeeded.
\<close>

definition overlay ::
  "bool \<Rightarrow> (nat \<times> nat \<Rightarrow> image \<Rightarrow> nat list) \<Rightarrow> image \<Rightarrow> tensor option \<Rightarrow> exn + image" where
  "overlay utils_imported resample pil_img heatmap_np =
     (case heatmap_np of
        None \<Rightarrow> Inr pil_img
      | Some heatmap \<Rightarrow>
          if utils_imported
          then rgba_heatmap_overlay resample default_ratio (convert_rgb pil_img) heatmap
          else (case fromarray_L (shape heatmap) (quantize heatmap) of
                  Inl x \<Rightarrow> Inl x
                | Inr hm_img \<Rightarrow>
                    Inr (tint_over default_ratio pil_img
                           (resize resample (im_size pil_img) hm_img))))"

section \<open>The heatmap in the words of the specification\<close>

text \<open>An element of a heatmap is acceptable when it is a finite number from 0 to 1.\<close>

definition in_unit :: "fval \<Rightarrow> bool" where
  "in_unit x = (case x of Fin r \<Rightarrow> 0 \<le> r \<and> r \<le> 1 | _ \<Rightarrow> False)"

text \<open>
  The specification's account of the map before normalisation, by indices: the element
  \<open>(b, k, i, j)\<close> of a \<open>(N, C, H, W)\<close> tensor; the weight of channel \<open>k\<close>, the
  arithmetic mean of the gradient of batch entry 0 over both spatial dimensions; and the
  value at \<open>(i, j)\<close>, the weighted sum of the activations over the channels, clamped
  at zero after the summation.
\<close>

definition spec_at :: "tensor \<Rightarrow> nat \<Rightarrow> nat \<Rightarrow> nat \<Rightarrow> nat \<Rightarrow> fval" where
  "spec_at t b k i j =
     (case shape t of
        [n, c, h, w] \<Rightarrow> elems t ! (((b * c + k) * h + i) * w + j)
      | _ \<Rightarrow> NaN)"

definition spec_weight :: "tensor \<Rightarrow> nat \<Rightarrow> fval" where
  "spec_weight grads k =
     (case shape grads of
        [n, c, h, w] \<Rightarrow>
          fdiv (fsum (concat (map (\<lambda>i. map (\<lambda>j. spec_at grads 0 k i j) [0..<w]) [0..<h])))
            (real (h * w))
      | _ \<Rightarrow> NaN)"

definition spec_cam_at :: "tensor \<Rightarrow> tensor \<Rightarrow> nat \<Rightarrow> nat \<Rightarrow> fval" where
  "spec_cam_at acts grads i j =
     (case shape acts of
        [n, c, h, w] \<Rightarrow>
          frelu (fsum (map (\<lambda>k. fmul (spec_weight grads k) (spec_at acts 0 k i j)) [0..<c]))
      | _ \<Rightarrow> NaN)"

section \<open>Layer resolution in the words of the specification\<close>

text \<open>
  A dotted path is its segments joined by dots; \<open>attr_path x segs z\<close> says that
  following the attributes named by \<open>segs\<close> from \<open>x\<close>, one after the other, every
  one is present and the last leads to \<open>z\<close>.
\<close>

fun join_dot :: "string list \<Rightarrow> string" where
  "join_dot [] = []"
| "join_dot [s] = s"
| "join_dot (s # t # ts) = s @ ''.'' @ join_dot (t # ts)"

inductive attr_path :: "pyobj \<Rightarrow> string list \<Rightarrow> pyobj \<Rightarrow> bool" where
  arrived: "attr_path x [] x"
| follow: "getattr_opt x seg = Some y \<Longrightarrow> attr_path y segs z \<Longrightarrow> attr_path x (seg # segs) z"

code_pred attr_path .

text \<open>
  The feature-extractor region offers no convolution: there is no \<open>features\<close>
  attribute, or it is no module, or no module listed under it is a \<open>Conv2d\<close>.
\<close>

definition no_conv_under_features :: "pyobj \<Rightarrow> bool" where
  "no_conv_under_features model =
     (case getattr_opt model ''features'' of
        None \<Rightarrow> True
      | Some features \<Rightarrow>
          \<not> is_module features \<or> list_all (\<lambda>x. \<not> is_conv2d (snd x)) (named_modules features))"

section \<open>Example inputs\<close>

text \<open>
  Three models: convolutions \<open>A\<close>, \<open>B\<close>, \<open>C\<close> under \<open>features\<close>; convolutions
  outside any \<open>features\<close> region; no convolution at all.
\<close>

definition conv_a :: pyobj where "conv_a = PyObj 2 KConv2d []"
definition conv_b :: pyobj where "conv_b = PyObj 3 KConv2d []"
definition conv_c :: pyobj where "conv_c = PyObj 4 KConv2d []"
definition abc_model :: pyobj where
  "abc_model = PyObj 0 KModule
     [(''features'', PyObj 1 KModule [(''A'', conv_a), (''B'', conv_b), (''C'', conv_c)]),
      (''classifier'', PyObj 5 KModule [])]"
definition flat_model :: pyobj where
  "flat_model = PyObj 0 KModule [(''stem'', conv_a), (''head'', conv_b), (''classifier'', PyObj 5 KModule [])]"
definition linear_model :: pyobj where
  "linear_model = PyObj 0 KModule [(''features'', PyObj 1 KModule []), (''classifier'', PyObj 5 KModule [])]"
text \<open>
  The first model with a fourth, non-convolutional module under \<open>features\<close> and a
  convolution \<open>head\<close> defined after the \<open>features\<close> region; and a model
  whose convolution \<open>C\<close> was built without bias, so that its \<open>bias\<close> is \<open>None\<close>.
\<close>

definition conv_head :: pyobj where "conv_head = PyObj 6 KConv2d []"

definition abc_features :: pyobj where
  "abc_features = PyObj 1 KModule
     [(''A'', conv_a), (''B'', conv_b), (''C'', conv_c), (''norm'', PyObj 7 KModule [])]"

definition abc_head_model :: pyobj where
  "abc_head_model = PyObj 0 KModule
     [(''features'', abc_features), (''head'', conv_head), (''classifier'', PyObj 5 KModule [])]"

definition none_obj :: pyobj where "none_obj = PyObj 8 KNone []"

definition conv_nobias :: pyobj where
  "conv_nobias = PyObj 4 KConv2d [(''bias'', none_obj)]"

definition nobias_features :: pyobj where
  "nobias_features = PyObj 1 KModule [(''C'', conv_nobias)]"

definition nobias_model :: pyobj where
  "nobias_model = PyObj 0 KModule
     [(''features'', nobias_features), (''classifier'', PyObj 5 KModule [])]"

definition idle_world :: world where
  "idle_world = \<lparr>training = True, param_grads = False, fwd_hooks = (\<lambda>i. 0), stdout = []\<rparr>"

text \<open>A 4 by 4 heatmap of ones and a 4 by 4 black RGB image.\<close>

definition ones4 :: tensor where
  "ones4 = \<lparr>shape = [4, 4], elems = replicate 16 (Fin 1)\<rparr>"

definition black4 :: image where
  "black4 = \<lparr>im_size = (4, 4), im_data = RGB (replicate 16 (0, 0, 0))\<rparr>"

text \<open>
  A black image two pixels wide, a heatmap of one element (the \<open>float32\<close> just above
  \<open>128.5 / 255\<close>), and a resampler that spreads the first intensity over the new size.
\<close>

definition black21 :: image where
  "black21 = \<lparr>im_size = (2, 1), im_data = RGB [(0, 0, 0), (0, 0, 0)]\<rparr>"

definition warm11 :: tensor where
  "warm11 = \<lparr>shape = [1, 1], elems = [Fin (8454401 / 2 ^ 24)]\<rparr>"

definition spread :: "nat \<times> nat \<Rightarrow> image \<Rightarrow> nat list" where
  "spread sz im = replicate (fst sz * snd sz) (hd (gray_pixels im))"

text \<open>
  An engine whose target is the convolution \<open>C\<close>; captured tensors of rank 4 and of
  rank 2; two class scores; and three runs of the model: one that reaches the target
  layer, one that bypasses it, one whose target layer yields tensors of rank 2.
\<close>

definition engine_c :: engine where
  "engine_c = \<lparr>target_module = Some conv_c, target_module_name = Some ''features.C'',
               activations = None, gradients = None\<rparr>"

definition acts_ex :: tensor where
  "acts_ex = \<lparr>shape = [1, 2, 2, 2], elems = map Fin [1, 2, 3, 4, 1, 1, 1, 1]\<rparr>"

definition grads_ex :: tensor where
  "grads_ex = \<lparr>shape = [1, 2, 2, 2], elems = map Fin [1, 1, 1, 1, -1, -1, -1, -5]\<rparr>"

definition flat_ex :: tensor where
  "flat_ex = \<lparr>shape = [1, 8], elems = map Fin [1, 2, 3, 4, 1, 1, 1, 1]\<rparr>"

definition two_scores :: logits where
  "two_scores = \<lparr>n_batch = 1, n_classes = 2, scores = [Fin 0, Fin 3]\<rparr>"

definition good_pass :: pass where
  "good_pass = \<lparr>layer_output = Some acts_ex, forward = Inr two_scores,
     backward = (\<lambda>j. \<lparr>grad_output = Some grads_ex, fills_param_grads = True,
                          backward_raises = None\<rparr>)\<rparr>"

definition bypass_pass :: pass where
  "bypass_pass = \<lparr>layer_output = None, forward = Inr two_scores,
     backward = (\<lambda>j. \<lparr>grad_output = None, fills_param_grads = True,
                          backward_raises = None\<rparr>)\<rparr>"

definition flat_pass :: pass where
  "flat_pass = \<lparr>layer_output = Some flat_ex, forward = Inr two_scores,
     backward = (\<lambda>j. \<lparr>grad_output = Some flat_ex, fills_param_grads = True,
                          backward_raises = None\<rparr>)\<rparr>"

text \<open>The heatmap of the run that reaches the target layer.\<close>

definition heat_ex :: tensor where
  "heat_ex = \<lparr>shape = [2, 2],
      elems = [Fin 0, Fin 0, Fin (1 / (2 + eps)), Fin (2 / (2 + eps))]\<rparr>"

section \<open>Properties of layer resolution\<close>

subsection \<open>A caller-supplied path\<close>

lemma split_dot_not_empty: "split_dot s \<noteq> []"
  by (induction s) (auto split: list.splits)

lemma split_dot_segment: "CHR ''.'' \<notin> set s \<Longrightarrow> split_dot s = [s]"
  by (induction s) auto

lemma split_dot_first:
  "CHR ''.'' \<notin> set s \<Longrightarrow> split_dot (s @ ''.'' @ rest) = s # split_dot rest"
  by (induction s) auto

lemma split_dot_join:
  "segs \<noteq> [] \<Longrightarrow> \<forall>s \<in> set segs. CHR ''.'' \<notin> set s \<Longrightarrow> split_dot (join_dot segs) = segs"
proof (induction segs rule: join_dot.induct)
  case 1
  then show ?case by simp
next
  case (2 s)
  then show ?case by (simp add: split_dot_segment)
next
  case (3 s t ts)
  then have "split_dot (join_dot (t # ts)) = t # ts" by simp
  with 3 show ?case using split_dot_first [of s "join_dot (t # ts)"] by simp
qed

lemma split_dot_dot_free: "\<forall>seg \<in> set (split_dot s). CHR ''.'' \<notin> set seg"
  by (induction s) (auto split: list.splits)

lemma join_dot_split: "join_dot (split_dot s) = s"
proof (induction s)
  case Nil
  then show ?case by simp
next
  case (Cons c cs)
  obtain p ps where ps: "split_dot cs = p # ps"
    using split_dot_not_empty [of cs] by (cases "split_dot cs") auto
  show ?case
  proof (cases "c = CHR ''.''")
    case True
    with Cons ps show ?thesis by simp
  next
    case False
    with Cons ps show ?thesis by (cases ps) auto
  qed
qed

lemma walk_attr_path: "walk x segs = Some z \<longleftrightarrow> attr_path x segs z"
proof
  show "walk x segs = Some z \<Longrightarrow> attr_path x segs z"
  proof (induction segs arbitrary: x)
    case Nil
    then show ?case by (simp add: attr_path.arrived)
  next
    case (Cons seg segs)
    then obtain y where y: "getattr_opt x seg = Some y" "walk y segs = Some z"
      by (auto split: option.splits)
    from Cons.IH [OF y(2)] y(1) show ?case by (rule attr_path.follow [rotated])
  qed
next
  show "attr_path x segs z \<Longrightarrow> walk x segs = Some z"
    by (induction rule: attr_path.induct) simp_all
qed

lemma walk_append:
  "walk cur (ps @ qs) = (case walk cur ps of None \<Rightarrow> None | Some c \<Rightarrow> walk c qs)"
  by (induction ps arbitrary: cur) (auto split: option.splits)

lemma walk_missing:
  assumes "segs = pre @ p # post" "attr_path model pre x" "getattr_opt x p = None"
  shows "walk model segs = None"
  using assms by (simp add: walk_append walk_attr_path [symmetric])


text \<open>
  Claim C5, amended. A caller-supplied dotted path, that is the join of its dot-free
  segments, is walked segment by segment. If every segment is present and the object
  reached is not \<open>None\<close>, that object becomes the target under the given name,
  whatever its kind. If the object reached is \<open>None\<close>, or if a segment is missing on
  the object reached so far, construction fails with the ``target layer not found''
  error; auto-selection plays no part. Every path is the join of such segments.
\<close>

theorem explicit_path_is_resolved_or_rejected:
  assumes "is_module model" "segs \<noteq> []" "\<forall>s \<in> set segs. CHR ''.'' \<notin> set s"
  shows "(\<forall>md. attr_path model segs md \<and> kind md \<noteq> KNone
            \<longrightarrow> init model (Some (join_dot segs)) w =
                  (eval_mode w,
                   Inr \<lparr>target_module = Some md, target_module_name = Some (join_dot segs),
                        activations = None, gradients = None\<rparr>))
       \<and> (\<forall>md. attr_path model segs md \<and> kind md = KNone
            \<longrightarrow> init model (Some (join_dot segs)) w =
                  (eval_mode w, Inl (Target_layer_not_found (join_dot segs))))
       \<and> ((\<exists>pre p post x. segs = pre @ p # post \<and> attr_path model pre x
              \<and> getattr_opt x p = None)
            \<longrightarrow> init model (Some (join_dot segs)) w =
                  (eval_mode w, Inl (Target_layer_not_found (join_dot segs))))
       \<and> (\<forall>path. \<exists>parts. parts \<noteq> [] \<and> (\<forall>s \<in> set parts. CHR ''.'' \<notin> set s)
              \<and> join_dot parts = path)"
proof -
  have sp: "get_module_by_name model (join_dot segs) = walk model segs"
    using assms(2,3) by (simp add: get_module_by_name_def split_dot_join)
  have 1: "init model (Some (join_dot segs)) w =
      (eval_mode w, Inr \<lparr>target_module = Some md, target_module_name = Some (join_dot segs),
                         activations = None, gradients = None\<rparr>)"
    if "attr_path model segs md \<and> kind md \<noteq> KNone" for md
  proof -
    from that have "walk model segs = Some md" by (simp add: walk_attr_path)
    with that assms(1) show ?thesis by (simp add: init_def sp)
  qed
  have 2: "init model (Some (join_dot segs)) w =
      (eval_mode w, Inl (Target_layer_not_found (join_dot segs)))"
    if "attr_path model segs md \<and> kind md = KNone" for md
  proof -
    from that have "walk model segs = Some md" by (simp add: walk_attr_path)
    with that assms(1) show ?thesis by (simp add: init_def sp)
  qed
  have 3: "init model (Some (join_dot segs)) w =
      (eval_mode w, Inl (Target_layer_not_found (join_dot segs)))"
    if "\<exists>pre p post x. segs = pre @ p # post \<and> attr_path model pre x \<and> getattr_opt x p = None"
  proof -
    from that have "walk model segs = None" by (auto intro: walk_missing)
    with assms(1) show ?thesis by (simp add: init_def sp)
  qed
  have 4: "\<exists>parts. parts \<noteq> [] \<and> (\<forall>s \<in> set parts. CHR ''.'' \<notin> set s) \<and> join_dot parts = path"
    for path
    using split_dot_not_empty [of path] split_dot_dot_free [of path] join_dot_split [of path]
    by blast
  from 1 2 3 4 show ?thesis by blast
qed


lemma abc_paths:
  "attr_path abc_head_model [''features'', ''C''] conv_c \<and> kind conv_c \<noteq> KNone
   \<and> attr_path abc_head_model [''classifier''] (PyObj 5 KModule [])
   \<and> attr_path abc_head_model [''features''] abc_features
   \<and> getattr_opt abc_features ''nonexistent'' = None"
  by (simp add: walk_attr_path [symmetric] abc_head_model_def abc_features_def getattr_opt_def
      conv_c_def)

lemma nobias_paths:
  "attr_path nobias_model [''features'', ''C'', ''bias''] none_obj \<and> kind none_obj = KNone"
  by (simp add: walk_attr_path [symmetric] nobias_model_def nobias_features_def
      conv_nobias_def none_obj_def getattr_opt_def)

theorem explicit_path_witness:
  "is_module abc_head_model
   \<and> init abc_head_model (Some ''features.C'') idle_world =
       (eval_mode idle_world,
        Inr \<lparr>target_module = Some conv_c, target_module_name = Some ''features.C'',
             activations = None, gradients = None\<rparr>)
   \<and> init abc_head_model (Some ''classifier'') idle_world =
       (eval_mode idle_world,
        Inr \<lparr>target_module = Some (PyObj 5 KModule []), target_module_name = Some ''classifier'',
             activations = None, gradients = None\<rparr>)
   \<and> init abc_head_model (Some ''features.nonexistent'') idle_world =
       (eval_mode idle_world, Inl (Target_layer_not_found ''features.nonexistent''))
   \<and> init nobias_model (Some ''features.C.bias'') idle_world =
       (eval_mode idle_world, Inl (Target_layer_not_found ''features.C.bias''))"
proof -
  have m: "is_module abc_head_model" "is_module nobias_model"
    by (simp_all add: is_module_def abc_head_model_def nobias_model_def)
  have d: "\<forall>s \<in> set [''features'', ''C'']. CHR ''.'' \<notin> set s"
    "\<forall>s \<in> set [''classifier'']. CHR ''.'' \<notin> set s"
    "\<forall>s \<in> set [''features'', ''nonexistent'']. CHR ''.'' \<notin> set s"
    "\<forall>s \<in> set [''features'', ''C'', ''bias'']. CHR ''.'' \<notin> set s"
    by simp_all
  note a = abc_paths
  have 1: "init abc_head_model (Some (join_dot [''features'', ''C''])) idle_world =
       (eval_mode idle_world,
        Inr \<lparr>target_module = Some conv_c,
             target_module_name = Some (join_dot [''features'', ''C'']),
             activations = None, gradients = None\<rparr>)"
    using explicit_path_is_resolved_or_rejected [OF m(1) _ d(1), of idle_world] a by blast
  have 2: "init abc_head_model (Some (join_dot [''classifier''])) idle_world =
       (eval_mode idle_world,
        Inr \<lparr>target_module = Some (PyObj 5 KModule []),
             target_module_name = Some (join_dot [''classifier'']),
             activations = None, gradients = None\<rparr>)"
    using explicit_path_is_resolved_or_rejected [OF m(1) _ d(2), of idle_world] a by fastforce
  have "[''features'', ''nonexistent''] = [''features''] @ ''nonexistent'' # []"
    by simp
  with a have "\<exists>pre p post x. [''features'', ''nonexistent''] = pre @ p # post
      \<and> attr_path abc_head_model pre x \<and> getattr_opt x p = None"
    by blast
  then have 3: "init abc_head_model (Some (join_dot [''features'', ''nonexistent''])) idle_world =
       (eval_mode idle_world,
        Inl (Target_layer_not_found (join_dot [''features'', ''nonexistent''])))"
    using explicit_path_is_resolved_or_rejected [OF m(1) _ d(3), of idle_world] by blast
  have 4: "init nobias_model (Some (join_dot [''features'', ''C'', ''bias''])) idle_world =
       (eval_mode idle_world,
        Inl (Target_layer_not_found (join_dot [''features'', ''C'', ''bias''])))"
    using explicit_path_is_resolved_or_rejected [OF m(2) _ d(4), of idle_world] nobias_paths
    by blast
  from 1 2 3 4 m(1) show ?thesis by simp
qed


text \<open>
  Claim C5, as stated, fails where a path resolves to \<open>None\<close>: each of the three
  segments of \<open>features.C.bias\<close> is present, and construction still fails with the
  ``target layer not found'' error.
\<close>

theorem resolved_path_to_none_is_rejected:
  "getattr_opt nobias_model ''features'' = Some nobias_features
   \<and> getattr_opt nobias_features ''C'' = Some conv_nobias
   \<and> getattr_opt conv_nobias ''bias'' = Some none_obj
   \<and> snd (init nobias_model (Some ''features.C.bias'') idle_world) =
       Inl (Target_layer_not_found ''features.C.bias'')"
  by (simp add: init_def get_module_by_name_def nobias_model_def nobias_features_def
      conv_nobias_def none_obj_def getattr_opt_def is_module_def)

subsection \<open>Auto-selection\<close>

lemma last_conv_of_enumeration:
  assumes "xs = pre @ (name, md) # post" "is_conv2d md"
    "list_all (\<lambda>x. \<not> is_conv2d (snd x)) post"
  shows "filter (\<lambda>(name, md). is_conv2d md) xs =
           filter (\<lambda>(name, md). is_conv2d md) pre @ [(name, md)]"
proof -
  from assms(3) have "filter (\<lambda>(name, md). is_conv2d md) post = []"
    by (auto simp: list_all_iff filter_empty_conv)
  with assms(1,2) show ?thesis by simp
qed

lemma no_conv_in_enumeration:
  "list_all (\<lambda>x. \<not> is_conv2d (snd x)) xs \<Longrightarrow> filter (\<lambda>(name, md). is_conv2d md) xs = []"
  by (auto simp: list_all_iff filter_empty_conv)

lemma no_conv_under_features_candidates:
  "no_conv_under_features model \<Longrightarrow> features_candidates model = []"
  by (auto simp: no_conv_under_features_def features_candidates_def no_conv_in_enumeration
      split: option.splits)

lemma init_auto_selected:
  assumes "is_module model" "candidates_of model = cs @ [(name, md)]"
  shows "init model None w =
      ((eval_mode w)\<lparr>stdout := stdout w @ [Auto_selected name]\<rparr>,
       Inr \<lparr>target_module = Some md, target_module_name = Some name,
            activations = None, gradients = None\<rparr>)"
  using assms by (simp add: init_def auto_select_target_layer_def eval_mode_def)


text \<open>A region of distinct sub-modules that have no sub-modules of their own.\<close>

lemma items_without_modules:
  "list_all (\<lambda>y. \<not> is_module (snd y)) items \<Longrightarrow>
     named_modules_of_items memo prefix items = (memo, [])"
  by (induction items arbitrary: memo) (auto simp: is_module_def)

lemma leaf_module_listed:
  assumes "is_module c" "list_all (\<lambda>y. \<not> is_module (snd y)) (attrs c)" "oid c \<notin> set memo"
  shows "named_modules_from memo prefix c = (oid c # memo, [(prefix, c)])"
  using assms by (cases c) (simp add: items_without_modules)

lemma items_of_leaves:
  assumes "list_all (\<lambda>x. is_module (snd x) \<longrightarrow>
              list_all (\<lambda>y. \<not> is_module (snd y)) (attrs (snd x))) items"
    and "distinct (map (\<lambda>x. oid (snd x)) (filter (\<lambda>x. is_module (snd x)) items))"
    and "\<forall>x \<in> set items. is_module (snd x) \<longrightarrow> oid (snd x) \<notin> set memo"
  shows "snd (named_modules_of_items memo prefix items) =
     map (\<lambda>(name, c). (sub_prefix prefix name, c)) (filter (\<lambda>x. is_module (snd x)) items)"
  using assms
proof (induction items arbitrary: memo)
  case Nil
  then show ?case by simp
next
  case (Cons item items)
  obtain name c where item: "item = (name, c)" by (cases item)
  show ?case
  proof (cases "is_module c")
    case False
    with Cons item show ?thesis by (simp add: is_module_def)
  next
    case True
    with Cons.prems item have leaf: "list_all (\<lambda>y. \<not> is_module (snd y)) (attrs c)"
      and fresh: "oid c \<notin> set memo" by simp_all
    from leaf_module_listed [OF True leaf fresh, of "sub_prefix prefix name"]
    have c: "named_modules_from memo (sub_prefix prefix name) c =
        (oid c # memo, [(sub_prefix prefix name, c)])" .
    have "\<forall>x \<in> set items. is_module (snd x) \<longrightarrow> oid (snd x) \<notin> set (oid c # memo)"
    proof (intro ballI impI)
      fix x assume x: "x \<in> set items" "is_module (snd x)"
      then have "oid (snd x) \<in> set (map (\<lambda>x. oid (snd x)) (filter (\<lambda>x. is_module (snd x)) items))"
        by auto
      moreover have "oid c \<notin> set (map (\<lambda>x. oid (snd x)) (filter (\<lambda>x. is_module (snd x)) items))"
        using Cons.prems(2) True item by simp
      ultimately have "oid (snd x) \<noteq> oid c" by metis
      moreover have "oid (snd x) \<notin> set memo" using Cons.prems(3) x by simp
      ultimately show "oid (snd x) \<notin> set (oid c # memo)" by simp
    qed
    with Cons.prems True item
    have "snd (named_modules_of_items (oid c # memo) prefix items) =
        map (\<lambda>(name, c). (sub_prefix prefix name, c)) (filter (\<lambda>x. is_module (snd x)) items)"
      by (intro Cons.IH) simp_all
    with True item c show ?thesis
      by (cases "named_modules_of_items (oid c # memo) prefix items")
         (simp add: is_module_def)
  qed
qed

lemma named_modules_of_container:
  assumes "list_all (\<lambda>x. is_module (snd x) \<longrightarrow>
              list_all (\<lambda>y. \<not> is_module (snd y)) (attrs (snd x))) items"
    and "distinct (i # map (\<lambda>x. oid (snd x)) (filter (\<lambda>x. is_module (snd x)) items))"
  shows "named_modules (PyObj i k items) =
     ([], PyObj i k items) # filter (\<lambda>x. is_module (snd x)) items"
proof -
  have "snd (named_modules_of_items [i] [] items) =
     map (\<lambda>(name, c). (sub_prefix [] name, c)) (filter (\<lambda>x. is_module (snd x)) items)"
    using assms by (intro items_of_leaves) auto
  then show ?thesis
    by (cases "named_modules_of_items [i] [] items")
       (simp add: named_modules_def sub_prefix_def)
qed

text \<open>
  Claim C4. Without a target path: if the modules listed under \<open>features\<close>, in
  definition order, hold a \<open>Conv2d\<close> with none listed after it, that one is the
  target, under its name prefixed with \<open>features.\<close>, whatever the rest of the model
  holds; if the \<open>features\<close> region is absent or offers no convolution, the target is
  the \<open>Conv2d\<close> of the listing of the whole model with none listed after it; if that
  listing holds none either, construction fails with the
  ``could not find a target conv layer'' error. The listing of a module whose
  sub-modules are distinct and have no sub-modules of their own is the module itself
  followed by its sub-modules in definition order.
\<close>

theorem auto_selection_takes_last_conv:
  assumes "is_module model"
  shows "(\<forall>features pre name md post.
            getattr_opt model ''features'' = Some features \<and> is_module features
            \<and> named_modules features = pre @ (name, md) # post \<and> is_conv2d md
            \<and> list_all (\<lambda>x. \<not> is_conv2d (snd x)) post
          \<longrightarrow> init model None w =
                ((eval_mode w)\<lparr>stdout := stdout w @ [Auto_selected (''features.'' @ name)]\<rparr>,
                 Inr \<lparr>target_module = Some md,
                      target_module_name = Some (''features.'' @ name),
                      activations = None, gradients = None\<rparr>))
       \<and> (\<forall>pre name md post.
            no_conv_under_features model
            \<and> named_modules model = pre @ (name, md) # post \<and> is_conv2d md
            \<and> list_all (\<lambda>x. \<not> is_conv2d (snd x)) post
          \<longrightarrow> init model None w =
                ((eval_mode w)\<lparr>stdout := stdout w @ [Auto_selected name]\<rparr>,
                 Inr \<lparr>target_module = Some md, target_module_name = Some name,
                      activations = None, gradients = None\<rparr>))
       \<and> (no_conv_under_features model
            \<and> list_all (\<lambda>x. \<not> is_conv2d (snd x)) (named_modules model)
          \<longrightarrow> init model None w = (eval_mode w, Inl Could_not_find_target_conv_layer))
       \<and> (\<forall>i k items.
            list_all (\<lambda>x. is_module (snd x) \<longrightarrow>
                        list_all (\<lambda>y. \<not> is_module (snd y)) (attrs (snd x))) items
            \<and> distinct (i # map (\<lambda>x. oid (snd x)) (filter (\<lambda>x. is_module (snd x)) items))
          \<longrightarrow> named_modules (PyObj i k items) =
                ([], PyObj i k items) # filter (\<lambda>x. is_module (snd x)) items)"
proof (intro conjI allI impI)
  fix features pre name md post
  assume a: "getattr_opt model ''features'' = Some features \<and> is_module features
            \<and> named_modules features = pre @ (name, md) # post \<and> is_conv2d md
            \<and> list_all (\<lambda>x. \<not> is_conv2d (snd x)) post"
  then have "named_modules features = pre @ (name, md) # post" "is_conv2d md"
    "list_all (\<lambda>x. \<not> is_conv2d (snd x)) post"
    by simp_all
  then have "filter (\<lambda>(name, md). is_conv2d md) (named_modules features) =
      filter (\<lambda>(name, md). is_conv2d md) pre @ [(name, md)]"
    by (rule last_conv_of_enumeration)
  with a have "features_candidates model =
      map (\<lambda>(name, md). (''features.'' @ name, md)) (filter (\<lambda>(name, md). is_conv2d md) pre)
      @ [(''features.'' @ name, md)]"
    by (simp add: features_candidates_def)
  then have "candidates_of model =
      map (\<lambda>(name, md). (''features.'' @ name, md)) (filter (\<lambda>(name, md). is_conv2d md) pre)
      @ [(''features.'' @ name, md)]"
    by (simp add: candidates_of_def)
  from init_auto_selected [OF assms this]
  show "init model None w =
      ((eval_mode w)\<lparr>stdout := stdout w @ [Auto_selected (''features.'' @ name)]\<rparr>,
       Inr \<lparr>target_module = Some md, target_module_name = Some (''features.'' @ name),
            activations = None, gradients = None\<rparr>)" .
next
  fix pre name md post
  assume a: "no_conv_under_features model
            \<and> named_modules model = pre @ (name, md) # post \<and> is_conv2d md
            \<and> list_all (\<lambda>x. \<not> is_conv2d (snd x)) post"
  then have "named_modules model = pre @ (name, md) # post" "is_conv2d md"
    "list_all (\<lambda>x. \<not> is_conv2d (snd x)) post"
    by simp_all
  then have "filter (\<lambda>(name, md). is_conv2d md) (named_modules model) =
      filter (\<lambda>(name, md). is_conv2d md) pre @ [(name, md)]"
    by (rule last_conv_of_enumeration)
  with a have "candidates_of model =
      filter (\<lambda>(name, md). is_conv2d md) pre @ [(name, md)]"
    by (simp add: candidates_of_def model_candidates_def no_conv_under_features_candidates)
  from init_auto_selected [OF assms this]
  show "init model None w =
      ((eval_mode w)\<lparr>stdout := stdout w @ [Auto_selected name]\<rparr>,
       Inr \<lparr>target_module = Some md, target_module_name = Some name,
            activations = None, gradients = None\<rparr>)" .
next
  assume "no_conv_under_features model
            \<and> list_all (\<lambda>x. \<not> is_conv2d (snd x)) (named_modules model)"
  then have "candidates_of model = []"
    by (simp add: candidates_of_def model_candidates_def no_conv_under_features_candidates
        no_conv_in_enumeration)
  with assms show "init model None w = (eval_mode w, Inl Could_not_find_target_conv_layer)"
    by (simp add: init_def auto_select_target_layer_def)
next
  fix i k and items :: "(string \<times> pyobj) list"
  assume "list_all (\<lambda>x. is_module (snd x) \<longrightarrow>
                        list_all (\<lambda>y. \<not> is_module (snd y)) (attrs (snd x))) items
            \<and> distinct (i # map (\<lambda>x. oid (snd x)) (filter (\<lambda>x. is_module (snd x)) items))"
  then show "named_modules (PyObj i k items) =
      ([], PyObj i k items) # filter (\<lambda>x. is_module (snd x)) items"
    using named_modules_of_container by blast
qed

lemma abc_head_enumeration:
  "getattr_opt abc_head_model ''features'' = Some abc_features \<and> is_module abc_features
   \<and> named_modules abc_features =
       [([], abc_features), (''A'', conv_a), (''B'', conv_b)] @ (''C'', conv_c)
         # [(''norm'', PyObj 7 KModule [])]
   \<and> is_conv2d conv_c \<and> list_all (\<lambda>x. \<not> is_conv2d (snd x)) [(''norm'', PyObj 7 KModule [])]"
  by (simp add: abc_head_model_def abc_features_def getattr_opt_def is_module_def
      named_modules_def conv_a_def conv_b_def conv_c_def sub_prefix_def is_conv2d_def)

lemma flat_enumeration:
  "no_conv_under_features flat_model
   \<and> named_modules flat_model =
       [([], flat_model), (''stem'', conv_a)] @ (''head'', conv_b)
         # [(''classifier'', PyObj 5 KModule [])]
   \<and> is_conv2d conv_b
   \<and> list_all (\<lambda>x. \<not> is_conv2d (snd x)) [(''classifier'', PyObj 5 KModule [])]"
  by (simp add: no_conv_under_features_def flat_model_def getattr_opt_def is_module_def
      named_modules_def conv_a_def conv_b_def sub_prefix_def is_conv2d_def)

lemma linear_enumeration:
  "no_conv_under_features linear_model
   \<and> list_all (\<lambda>x. \<not> is_conv2d (snd x)) (named_modules linear_model)"
  by (simp add: no_conv_under_features_def linear_model_def getattr_opt_def is_module_def
      named_modules_def sub_prefix_def is_conv2d_def)

theorem auto_selection_witness:
  "is_module abc_head_model
   \<and> snd (init abc_head_model None idle_world) =
       Inr \<lparr>target_module = Some conv_c, target_module_name = Some ''features.C'',
            activations = None, gradients = None\<rparr>
   \<and> stdout (fst (init abc_head_model None idle_world)) = [Auto_selected ''features.C'']
   \<and> snd (init flat_model None idle_world) =
       Inr \<lparr>target_module = Some conv_b, target_module_name = Some ''head'',
            activations = None, gradients = None\<rparr>
   \<and> snd (init linear_model None idle_world) = Inl Could_not_find_target_conv_layer"
proof -
  have m: "is_module abc_head_model" "is_module flat_model" "is_module linear_model"
    by (simp_all add: is_module_def abc_head_model_def flat_model_def linear_model_def)
  note t1 = auto_selection_takes_last_conv [OF m(1), of idle_world]
  note t2 = auto_selection_takes_last_conv [OF m(2), of idle_world]
  note t3 = auto_selection_takes_last_conv [OF m(3), of idle_world]
  have 1: "init abc_head_model None idle_world =
      ((eval_mode idle_world)\<lparr>stdout := stdout idle_world @ [Auto_selected (''features.'' @ ''C'')]\<rparr>,
       Inr \<lparr>target_module = Some conv_c, target_module_name = Some (''features.'' @ ''C''),
            activations = None, gradients = None\<rparr>)"
    using t1 abc_head_enumeration by blast
  have 2: "init flat_model None idle_world =
      ((eval_mode idle_world)\<lparr>stdout := stdout idle_world @ [Auto_selected ''head'']\<rparr>,
       Inr \<lparr>target_module = Some conv_b, target_module_name = Some ''head'',
            activations = None, gradients = None\<rparr>)"
    using t2 flat_enumeration by blast
  have 3: "init linear_model None idle_world =
      (eval_mode idle_world, Inl Could_not_find_target_conv_layer)"
    using t3 linear_enumeration by blast
  have "stdout idle_world = []"
    by (simp add: idle_world_def)
  with m(1) show ?thesis
    unfolding 1 2 3 by simp
qed

section \<open>Properties of one call\<close>

lemmas example_defs = engine_c_def conv_c_def idle_world_def good_pass_def bypass_pass_def
  flat_pass_def two_scores_def acts_ex_def grads_ex_def flat_ex_def

lemmas step_defs = get_cam_def register_forward_hook_def run_passes_def forward_pass_def
  backward_pass_def select_class_def column_index_def remove_hook_def zero_grad_def
  clear_captures_def finish_def is_module_def

text \<open>
  Claim C3 asks that the forward hook be released on every exit path. The code removes
  it only after the backward pass has returned: here the class index 5 is out of range
  for two classes, \<open>logits[:, 5]\<close> raises \<open>IndexError\<close>, and the hook registered by
  this call is still on the target layer when the call ends.
\<close>

theorem hook_stays_when_class_index_is_out_of_range:
  "snd (snd (get_cam good_pass (Some 5) idle_world engine_c)) = Inl IndexError
   \<and> fwd_hooks idle_world (oid conv_c) = 0
   \<and> fwd_hooks (fst (get_cam good_pass (Some 5) idle_world engine_c)) (oid conv_c) = 1"
  by (simp add: step_defs example_defs Let_def)

text \<open>On every path on which \<open>get_cam\<close> returns, the hook of the call is removed.\<close>

lemma hooks_finish: "fwd_hooks (fst (finish w e)) = fwd_hooks w"
  by (simp add: finish_def split: option.splits sum.splits)

lemma hooks_run_passes: "fwd_hooks (fst (run_passes p tc w e)) = fwd_hooks w"
  by (simp add: run_passes_def backward_pass_def zero_grad_def Let_def
      split: prod.splits sum.splits)

lemma hook_released_on_return:
  assumes "get_cam p tc w e = (w', e', Inr r)"
  shows "fwd_hooks w' = fwd_hooks w"
proof (cases "target_module e")
  case None
  with assms show ?thesis by (auto simp: get_cam_def)
next
  case (Some md)
  with assms obtain w1 where w1: "register_forward_hook md w = Inr w1"
    by (cases "register_forward_hook md w") (auto simp: get_cam_def)
  then have h1: "fwd_hooks w1 = (fwd_hooks w)(oid md := fwd_hooks w (oid md) + 1)"
    by (auto simp: register_forward_hook_def split: if_splits)
  obtain w2 e2 u where rp: "run_passes p tc w1 (clear_captures e) = (w2, e2, u)"
    by (cases "run_passes p tc w1 (clear_captures e)") auto
  from hooks_run_passes [of p tc w1 "clear_captures e"] rp
  have h2: "fwd_hooks w2 = fwd_hooks w1" by simp
  from assms Some w1 rp have fin: "finish (remove_hook md w2) e2 = (w', e', Inr r)"
    by (cases u) (auto simp: get_cam_def)
  from hooks_finish [of "remove_hook md w2" e2] fin
  have "fwd_hooks w' = fwd_hooks (remove_hook md w2)" by simp
  also have "\<dots> = fwd_hooks w"
    by (simp add: remove_hook_def h2 h1 fun_eq_iff)
  finally show ?thesis .
qed

lemma training_finish: "training (fst (finish w e)) = training w"
  by (simp add: finish_def split: option.splits sum.splits)

lemma training_run_passes: "training (fst (run_passes p tc w e)) = training w"
  by (simp add: run_passes_def backward_pass_def zero_grad_def Let_def
      split: prod.splits sum.splits)

lemma training_get_cam: "training (fst (get_cam p tc w e)) = training w"
proof (cases "target_module e")
  case None
  then show ?thesis by (simp add: get_cam_def)
next
  case (Some md)
  show ?thesis
  proof (cases "is_module md")
    case False
    with Some show ?thesis by (simp add: get_cam_def register_forward_hook_def)
  next
    case True
    let ?w1 = "w\<lparr>fwd_hooks := (fwd_hooks w)(oid md := fwd_hooks w (oid md) + 1)\<rparr>"
    obtain w2 e2 r where rp: "run_passes p tc ?w1 (clear_captures e) = (w2, e2, r)"
      by (cases "run_passes p tc ?w1 (clear_captures e)") auto
    have "training w2 = training ?w1"
      using training_run_passes [of p tc ?w1 "clear_captures e"] rp by simp
    then have t2: "training w2 = training w" by simp
    show ?thesis
    proof (cases r)
      case (Inl x)
      with Some True rp t2 show ?thesis
        by (simp add: get_cam_def register_forward_hook_def)
    next
      case (Inr u)
      with Some True rp t2 show ?thesis
        using training_finish [of "remove_hook md w2" e2]
        by (simp add: get_cam_def register_forward_hook_def remove_hook_def)
    qed
  qed
qed

lemma training_init: "is_module model \<Longrightarrow> training (fst (init model target_layer w)) = False"
  by (simp add: init_def eval_mode_def auto_select_target_layer_def Let_def
      split: option.splits prod.splits)

text \<open>
  Claim C7, as stated, fails for a model in training mode: constructing the engine
  calls \<open>model.eval()\<close>.
\<close>

theorem init_clears_training_flag:
  "training idle_world \<and> \<not> training (fst (init abc_model None idle_world))"
  using training_init [of abc_model None idle_world]
  by (simp add: idle_world_def is_module_def abc_model_def)

text \<open>
  Claim C7, amended. Constructing the engine leaves the model in inference mode (its
  training flag is false afterwards, whatever it was, also when construction fails for
  want of a target layer), and \<open>get_cam\<close> leaves the training flag as it finds it, on
  every exit path.
\<close>

theorem training_flag_after_init_and_get_cam:
  assumes "is_module model"
  shows "training (fst (init model target_layer w)) = False
       \<and> training (fst (get_cam p target_class w' e)) = training w'"
  using assms by (simp add: training_init training_get_cam)

theorem training_flag_witness:
  "is_module abc_model
   \<and> training (fst (init abc_model None idle_world)) = False
   \<and> training (fst (get_cam good_pass None idle_world engine_c)) = training idle_world"
proof -
  have m: "is_module abc_model"
    by (simp add: is_module_def abc_model_def)
  from training_flag_after_init_and_get_cam [OF m, of None idle_world good_pass None idle_world engine_c]
  show ?thesis using m by simp
qed

lemma completed_passes:
  assumes "target_module e = Some md" "is_module md" "forward p = Inr lg"
    "select_class lg tc = Inr t" "column_index lg t = Inr j"
    "backward_raises (backward p j) = None"
  shows "get_cam p tc w e =
     finish
       (w\<lparr>param_grads := fills_param_grads (backward p j)\<rparr>)
       ((clear_captures e)
          \<lparr>activations := layer_output p,
           gradients := (case layer_output p of None \<Rightarrow> None
                         | Some out \<Rightarrow> grad_output (backward p j))\<rparr>)"
  using assms
  by (cases e; cases "layer_output p"; cases "grad_output (backward p j)")
     (simp_all add: get_cam_def register_forward_hook_def run_passes_def forward_pass_def
        backward_pass_def remove_hook_def zero_grad_def clear_captures_def Let_def)

text \<open>
  Claim C6, amended. When both passes complete: if either buffer is still empty the
  call prints the ``not captured'' line and returns \<open>None\<close>; if the captured tensors
  are not both of rank 4 it prints the ``unexpected dims'' line with the two observed
  shapes and returns \<open>None\<close>. The two printed lines differ; the returned value does not.
\<close>

theorem capture_and_rank_failures_return_none:
  assumes "target_module e = Some md" "is_module md" "forward p = Inr lg"
    "select_class lg tc = Inr t" "column_index lg t = Inr j"
    "backward_raises (backward p j) = None"
  shows "(layer_output p = None \<or> grad_output (backward p j) = None \<longrightarrow>
            snd (snd (get_cam p tc w e)) = Inr None
            \<and> stdout (fst (get_cam p tc w e)) = stdout w @ [Not_captured])
       \<and> (\<forall>a g. layer_output p = Some a \<and> grad_output (backward p j) = Some g
              \<and> (length (shape a) \<noteq> 4 \<or> length (shape g) \<noteq> 4) \<longrightarrow>
            snd (snd (get_cam p tc w e)) = Inr None
            \<and> stdout (fst (get_cam p tc w e)) =
                stdout w @ [Unexpected_tensor_dims (shape a) (shape g)])"
  unfolding completed_passes [OF assms]
  by (auto simp: finish_def clear_captures_def split: option.splits)

lemma bypass_steps:
  "target_module engine_c = Some conv_c \<and> is_module conv_c \<and> forward bypass_pass = Inr two_scores
   \<and> select_class two_scores None = Inr 1 \<and> column_index two_scores 1 = Inr 1
   \<and> backward_raises (backward bypass_pass 1) = None
   \<and> layer_output bypass_pass = None"
  by (simp add: example_defs is_module_def select_class_def column_index_def argmax_def
      beats_def)

lemma flat_steps:
  "forward flat_pass = Inr two_scores \<and> backward_raises (backward flat_pass 1) = None
   \<and> layer_output flat_pass = Some flat_ex \<and> grad_output (backward flat_pass 1) = Some flat_ex
   \<and> length (shape flat_ex) \<noteq> 4"
  by (simp add: example_defs)

theorem capture_and_rank_failures_witness:
  "snd (snd (get_cam bypass_pass None idle_world engine_c)) = Inr None
   \<and> stdout (fst (get_cam bypass_pass None idle_world engine_c)) = [Not_captured]
   \<and> snd (snd (get_cam flat_pass None idle_world engine_c)) = Inr None
   \<and> stdout (fst (get_cam flat_pass None idle_world engine_c)) =
       [Unexpected_tensor_dims [1, 8] [1, 8]]"
proof -
  note b = bypass_steps
  note f = flat_steps
  have 1: "snd (snd (get_cam bypass_pass None idle_world engine_c)) = Inr None
     \<and> stdout (fst (get_cam bypass_pass None idle_world engine_c)) =
         stdout idle_world @ [Not_captured]"
    using capture_and_rank_failures_return_none
      [of engine_c conv_c bypass_pass two_scores None 1 1 idle_world] b
    by simp
  have 2: "snd (snd (get_cam flat_pass None idle_world engine_c)) = Inr None
     \<and> stdout (fst (get_cam flat_pass None idle_world engine_c)) =
         stdout idle_world @ [Unexpected_tensor_dims (shape flat_ex) (shape flat_ex)]"
    using capture_and_rank_failures_return_none
      [of engine_c conv_c flat_pass two_scores None 1 1 idle_world] b f
    by simp
  from 1 2 show ?thesis
    by (simp add: idle_world_def flat_ex_def)
qed

text \<open>
  Claim C6, as stated, fails: the caller receives the same value, \<open>None\<close>, for a
  missing capture and for a wrong rank, so what it receives does not tell the reasons
  apart.
\<close>

theorem failure_reason_is_not_returned:
  "snd (snd (get_cam bypass_pass None idle_world engine_c)) =
   snd (snd (get_cam flat_pass None idle_world engine_c))"
  by (simp add: step_defs example_defs argmax_def beats_def Let_def)

text \<open>
  Claim C8, as stated, fails: after a call has returned its heatmap, the buffers still
  hold the tensors it captured.
\<close>

theorem captures_stay_after_the_call:
  "activations (fst (snd (get_cam good_pass None idle_world engine_c))) = Some acts_ex
   \<and> gradients (fst (snd (get_cam good_pass None idle_world engine_c))) = Some grads_ex"
  by (simp add: step_defs example_defs argmax_def beats_def Let_def cam_raw_def index0_def
      split: sum.splits)

text \<open>
  Claim C8, amended. Every call (of an engine with a target layer) sets both buffers to
  empty before it attaches its hook, so what the buffers held before has no influence on
  the call: not on its result, nor on the state it leaves.
\<close>

theorem captures_are_cleared_before_instrumentation:
  assumes "target_module e = Some md"
  shows "get_cam p tc w (e\<lparr>activations := a, gradients := g\<rparr>) = get_cam p tc w (clear_captures e)
       \<and> get_cam p tc w e = get_cam p tc w (clear_captures e)
       \<and> activations (clear_captures e) = None \<and> gradients (clear_captures e) = None"
  using assms
  by (simp add: get_cam_def clear_captures_def cong: sum.case_cong prod.case_cong)

theorem captures_cleared_witness:
  "target_module (engine_c\<lparr>activations := Some flat_ex, gradients := Some flat_ex\<rparr>) = Some conv_c
   \<and> get_cam good_pass None idle_world (engine_c\<lparr>activations := Some flat_ex, gradients := Some flat_ex\<rparr>)
       = get_cam good_pass None idle_world engine_c"
proof -
  have t: "target_module engine_c = Some conv_c"
    by (simp add: engine_c_def)
  have c: "clear_captures engine_c = engine_c"
    by (simp add: clear_captures_def engine_c_def)
  from captures_are_cleared_before_instrumentation [OF t, of good_pass None idle_world "Some flat_ex" "Some flat_ex"]
  show ?thesis using t by (simp add: c)
qed

section \<open>Properties of the heatmap\<close>

subsection \<open>Normalisation\<close>

lemma foldl_max_ge_init: "(a::real) \<le> foldl max a ys"
  by (induction ys arbitrary: a) (auto intro: order_trans [OF max.cobounded1])

lemma foldl_max_ge_elem: "y \<in> set ys \<Longrightarrow> (y::real) \<le> foldl max a ys"
proof (induction ys arbitrary: a)
  case Nil
  then show ?case by simp
next
  case (Cons z zs)
  show ?case
  proof (cases "y = z")
    case True
    have "z \<le> max a z" by simp
    also have "\<dots> \<le> foldl max (max a z) zs" by (rule foldl_max_ge_init)
    finally show ?thesis using True by simp
  next
    case False
    with Cons.prems have "y \<in> set zs" by simp
    from Cons.IH [OF this] show ?thesis by simp
  qed
qed

lemma max_val_upper: "x \<in> set xs \<Longrightarrow> fin_val x \<le> max_val xs"
proof (cases xs)
  case Nil
  then show "x \<in> set xs \<Longrightarrow> ?thesis" by simp
next
  case (Cons y ys)
  assume "x \<in> set xs"
  with Cons have "x = y \<or> x \<in> set ys" by simp
  then show ?thesis
  proof
    assume "x = y"
    then show ?thesis
      using foldl_max_ge_init [of "fin_val y" "map fin_val ys"] Cons
      by (simp add: max_val_def)
  next
    assume "x \<in> set ys"
    then have "fin_val x \<in> set (map fin_val ys)" by simp
    from foldl_max_ge_elem [OF this] show ?thesis
      using Cons by (simp add: max_val_def)
  qed
qed

lemma eps_pos: "0 < eps"
  by (simp add: eps_def)

lemma frelu_cases: "(\<exists>r. frelu y = Fin r \<and> 0 \<le> r) \<or> frelu y = PInf \<or> frelu y = NaN"
  by (cases y) simp_all

lemma cam_raw_rectified:
  assumes "cam_raw acts grads = Inr cam" "x \<in> set (elems cam)"
  shows "(\<exists>r. x = Fin r \<and> 0 \<le> r) \<or> x = PInf \<or> x = NaN"
proof -
  from assms obtain ys where "elems cam = map frelu ys"
    by (auto simp: cam_raw_def Let_def split: sum.splits)
  with assms(2) obtain y where "x = frelu y" by auto
  then show ?thesis using frelu_cases [of y] by simp
qed

lemma normalize_cases:
  assumes "normalize cam = Inr hm"
  shows "shape hm = shape cam
       \<and> (if all_finite (elems cam) \<and> 0 < max_val (elems cam)
          then elems hm = map (\<lambda>x. fdiv x (max_val (elems cam) + eps)) (elems cam)
          else elems hm = map (\<lambda>x. Fin 0) (elems cam))"
  using assms by (auto simp: normalize_def zeros_like_def split: if_splits)

lemma normalize_total: "elems cam \<noteq> [] \<Longrightarrow> \<exists>hm. normalize cam = Inr hm"
  by (simp add: normalize_def)

lemma normalize_in_unit:
  assumes n: "normalize cam = Inr hm"
    and rect: "\<And>x. x \<in> set (elems cam) \<Longrightarrow> (\<exists>r. x = Fin r \<and> 0 \<le> r) \<or> x = PInf \<or> x = NaN"
    and x: "x \<in> set (elems hm)"
  shows "in_unit x"
proof (cases "all_finite (elems cam) \<and> 0 < max_val (elems cam)")
  case True
  let ?m = "max_val (elems cam)"
  from normalize_cases [OF n] True
  have "elems hm = map (\<lambda>x. fdiv x (?m + eps)) (elems cam)" by simp
  with x obtain y where y: "y \<in> set (elems cam)" "x = fdiv y (?m + eps)" by auto
  from True y(1) have "is_finite y"
    by (simp add: all_finite_def list_all_iff)
  with rect [OF y(1)] obtain r where r: "y = Fin r" "0 \<le> r" by auto
  from max_val_upper [OF y(1)] r have le: "r \<le> ?m" by simp
  from True eps_pos have pos: "0 < ?m + eps" by simp
  then have "x = Fin (r / (?m + eps))"
    using y(2) r by simp
  moreover have "0 \<le> r / (?m + eps)" using r pos by simp
  moreover have "r / (?m + eps) \<le> 1" using le pos eps_pos by simp
  ultimately show ?thesis by (simp add: in_unit_def)
next
  case False
  with normalize_cases [OF n] have "elems hm = map (\<lambda>x. Fin 0) (elems cam)"
    by (simp split: if_splits)
  with x show ?thesis by (auto simp: in_unit_def)
qed

lemma get_cam_heatmap:
  assumes "get_cam p tc w e = (w', e', Inr (Some hm))"
  shows "\<exists>acts grads cam. activations e' = Some acts \<and> gradients e' = Some grads
           \<and> length (shape acts) = 4 \<and> length (shape grads) = 4
           \<and> cam_raw acts grads = Inr cam \<and> normalize cam = Inr hm"
proof -
  from assms obtain md where md: "target_module e = Some md"
    by (cases "target_module e") (auto simp: get_cam_def)
  from assms md obtain w1 where w1: "register_forward_hook md w = Inr w1"
    by (cases "register_forward_hook md w") (auto simp: get_cam_def)
  obtain w2 e2 r where rp: "run_passes p tc w1 (clear_captures e) = (w2, e2, r)"
    by (cases "run_passes p tc w1 (clear_captures e)") auto
  from assms md w1 rp have fin: "finish (remove_hook md w2) e2 = (w', e', Inr (Some hm))"
    by (cases r) (auto simp: get_cam_def)
  then show ?thesis
    by (auto simp: finish_def split: option.splits if_splits sum.splits)
qed

lemma fdiv_pos: "0 < d \<Longrightarrow> fdiv (Fin a) d = Fin (a / d)"
  by simp

lemma cam_raw_ex:
  "cam_raw acts_ex grads_ex = Inr \<lparr>shape = [2, 2], elems = [Fin 0, Fin 0, Fin 1, Fin 2]\<rparr>"
  by (simp add: cam_raw_def index0_def acts_ex_def grads_ex_def channels_def mean_hw_def
      weighted_channels_def sum_channels_def scale_def fmean_def eval_nat_numeral)

lemma normalize_ex:
  "normalize \<lparr>shape = [2, 2], elems = [Fin 0, Fin 0, Fin 1, Fin 2]\<rparr> = Inr heat_ex"
proof -
  have "0 < 2 + eps" using eps_pos by simp
  then show ?thesis
    by (simp add: normalize_def all_finite_def max_val_def heat_ex_def)
qed

lemma get_cam_ex:
  "snd (snd (get_cam good_pass None idle_world engine_c)) = Inr (Some heat_ex)
   \<and> activations (fst (snd (get_cam good_pass None idle_world engine_c))) = Some acts_ex
   \<and> gradients (fst (snd (get_cam good_pass None idle_world engine_c))) = Some grads_ex"
proof -
  have "get_cam good_pass None idle_world engine_c =
      finish
       (idle_world\<lparr>param_grads := fills_param_grads (backward good_pass 1)\<rparr>)
       ((clear_captures engine_c)
          \<lparr>activations := layer_output good_pass,
           gradients := (case layer_output good_pass of None \<Rightarrow> None
                         | Some out \<Rightarrow> grad_output (backward good_pass 1))\<rparr>)"
    by (rule completed_passes [where md = conv_c and lg = two_scores and t = 1])
       (simp_all add: engine_c_def good_pass_def is_module_def conv_c_def select_class_def
          two_scores_def argmax_def beats_def column_index_def)
  then show ?thesis
    by (simp add: finish_def good_pass_def clear_captures_def cam_raw_ex normalize_ex
        acts_ex_def [THEN arg_cong, of shape] grads_ex_def [THEN arg_cong, of shape])
qed

lemma get_cam_ex_triple:
  "get_cam good_pass None idle_world engine_c =
     (fst (get_cam good_pass None idle_world engine_c),
      fst (snd (get_cam good_pass None idle_world engine_c)), Inr (Some heat_ex))"
  using get_cam_ex by (metis prod.collapse)

text \<open>
  Claim C1. Whenever \<open>get_cam\<close> returns a heatmap, every element of it is a finite
  number from 0 to 1: the rectified map \<open>cam\<close> of the captured tensors is divided by
  its maximum plus epsilon when it is entirely finite with a positive maximum, and is
  replaced by zeros of the same shape otherwise; and normalising a map that has elements
  never fails, so a degenerate map is not an error.
\<close>

theorem heatmap_lies_in_unit_interval:
  assumes "get_cam p tc w e = (w', e', Inr (Some hm))"
  shows "(\<forall>x \<in> set (elems hm). in_unit x)
       \<and> (\<exists>acts grads cam. activations e' = Some acts \<and> gradients e' = Some grads
             \<and> cam_raw acts grads = Inr cam \<and> shape hm = shape cam
             \<and> (if all_finite (elems cam) \<and> 0 < max_val (elems cam)
                then elems hm = map (\<lambda>x. fdiv x (max_val (elems cam) + eps)) (elems cam)
                else elems hm = map (\<lambda>x. Fin 0) (elems cam)))
       \<and> (\<forall>cam. elems cam \<noteq> [] \<longrightarrow> (\<exists>h. normalize cam = Inr h))"
proof -
  from get_cam_heatmap [OF assms] obtain acts grads cam
    where c: "activations e' = Some acts" "gradients e' = Some grads"
      "cam_raw acts grads = Inr cam" "normalize cam = Inr hm"
    by blast
  have "\<forall>x \<in> set (elems hm). in_unit x"
    using normalize_in_unit [OF c(4)] cam_raw_rectified [OF c(3)] by blast
  moreover have "\<exists>acts grads cam. activations e' = Some acts \<and> gradients e' = Some grads
             \<and> cam_raw acts grads = Inr cam \<and> shape hm = shape cam
             \<and> (if all_finite (elems cam) \<and> 0 < max_val (elems cam)
                then elems hm = map (\<lambda>x. fdiv x (max_val (elems cam) + eps)) (elems cam)
                else elems hm = map (\<lambda>x. Fin 0) (elems cam))"
    using c normalize_cases [OF c(4)] by blast
  ultimately show ?thesis
    using normalize_total by blast
qed

theorem heatmap_unit_interval_witness:
  "snd (snd (get_cam good_pass None idle_world engine_c)) = Inr (Some heat_ex)
   \<and> list_all in_unit (elems heat_ex)"
proof -
  from heatmap_lies_in_unit_interval [OF get_cam_ex_triple]
  have "\<forall>x \<in> set (elems heat_ex). in_unit x" by blast
  then show ?thesis using get_cam_ex by (simp add: list_all_iff)
qed

subsection \<open>The map before normalisation\<close>

lemma length_chunks: "length (chunks n k xs) = k"
  by (induction k arbitrary: xs) simp_all

lemma nth_chunks: "i < k \<Longrightarrow> chunks n k xs ! i = take n (drop (i * n) xs)"
proof (induction k arbitrary: xs i)
  case 0
  then show ?case by simp
next
  case (Suc k)
  show ?case
  proof (cases i)
    case 0
    then show ?thesis by simp
  next
    case (Suc i')
    with Suc.prems have "i' < k" by simp
    from Suc.IH [OF this, of "drop n xs"] Suc show ?thesis
      by (simp add: add.commute)
  qed
qed

lemma rows_flatten:
  "concat (map (\<lambda>i. map (\<lambda>j. f (i * w + j)) [0..<w]) [0..<h]) = map f [0..<h * w]"
proof (induction h)
  case 0
  then show ?case by simp
next
  case (Suc h)
  have "[0..<Suc h * w] = [0..<h * w] @ [h * w..<h * w + w]"
    using upt_add_eq_append [of 0 "h * w" w] by (simp add: add.commute)
  moreover have "[h * w..<h * w + w] = map (\<lambda>j. h * w + j) [0..<w]"
    using map_add_upt [of "h * w" w] by (simp add: add.commute)
  ultimately have "map f [0..<Suc h * w] =
      map f [0..<h * w] @ map (\<lambda>j. f (h * w + j)) [0..<w]"
    by (simp add: comp_def)
  with Suc show ?case by simp
qed

lemma take_drop_as_map:
  "off + n \<le> length xs \<Longrightarrow> take n (drop off xs) = map (\<lambda>p. xs ! (off + p)) [0..<n]"
  by (simp add: list_eq_iff_nth_eq)

lemma length_sum_channels:
  "\<forall>ch \<in> set chans. length ch = n \<Longrightarrow> length (sum_channels n chans) = n"
  by (induction chans) (simp_all add: sum_channels_def)

lemma nth_sum_channels:
  "\<forall>ch \<in> set chans. length ch = n \<Longrightarrow> p < n \<Longrightarrow>
     sum_channels n chans ! p = fsum (map (\<lambda>ch. ch ! p) chans)"
proof (induction chans)
  case Nil
  then show ?case by (simp add: sum_channels_def)
next
  case (Cons ch chans)
  then have len: "length (sum_channels n chans) = n" "length ch = n"
    by (simp_all add: length_sum_channels)
  have "sum_channels n (ch # chans) = map2 fadd ch (sum_channels n chans)"
    by (simp add: sum_channels_def)
  with len Cons show ?case by simp
qed

lemma channel_of_slice:
  assumes "k < c" "c * m \<le> length xs"
  shows "chunks m c (take (c * m) xs) ! k = map (\<lambda>q. xs ! (k * m + q)) [0..<m]"
proof -
  from assms(1) have "Suc k \<le> c" by simp
  then have "Suc k * m \<le> c * m" by (rule mult_le_mono1)
  then have b: "k * m + m \<le> c * m" by simp
  with assms(2) have b2: "k * m + m \<le> length xs" by simp
  have "chunks m c (take (c * m) xs) ! k = take m (drop (k * m) (take (c * m) xs))"
    using assms(1) by (rule nth_chunks)
  also have "\<dots> = take m (drop (k * m) xs)"
    using b by (simp add: drop_take min_def)
  also have "\<dots> = map (\<lambda>q. xs ! (k * m + q)) [0..<m]"
    using b2 by (rule take_drop_as_map)
  finally show ?thesis .
qed

lemma index_in_plane: "i < h \<Longrightarrow> j < w \<Longrightarrow> i * w + j < h * (w::nat)"
proof -
  assume i: "i < h" and j: "j < w"
  from i have "Suc i \<le> h" by simp
  then have "Suc i * w \<le> h * w" by (rule mult_le_mono1)
  with j show ?thesis by simp
qed

lemma fsum_zip_scale:
  assumes "length ws = length chans" "\<forall>ch \<in> set chans. p < length ch"
  shows "map (\<lambda>ch. ch ! p) (map2 scale ws chans) =
         map (\<lambda>k. fmul (ws ! k) (chans ! k ! p)) [0..<length chans]"
proof (rule nth_equalityI)
  show "length (map (\<lambda>ch. ch ! p) (map2 scale ws chans)) =
      length (map (\<lambda>k. fmul (ws ! k) (chans ! k ! p)) [0..<length chans])"
    using assms(1) by simp
next
  fix k
  assume "k < length (map (\<lambda>ch. ch ! p) (map2 scale ws chans))"
  with assms(1) have k: "k < length chans" "k < length ws" by simp_all
  then have "chans ! k \<in> set chans" by simp
  with assms(2) have "p < length (chans ! k)" by blast
  with k show "map (\<lambda>ch. ch ! p) (map2 scale ws chans) ! k =
      map (\<lambda>k. fmul (ws ! k) (chans ! k ! p)) [0..<length chans] ! k"
    by (simp add: scale_def)
qed

text \<open>
  Claim C2. For a call that returns a heatmap from captured tensors of shape
  \<open>(N, C, H, W)\<close>, the map that is normalised has shape \<open>(H, W)\<close> and its value at
  \<open>(i, j)\<close> is the sum over the channels of batch entry 0 of the activation times the
  channel's mean gradient, clamped at zero after the summation.
\<close>

theorem rectified_map_is_weighted_channel_sum:
  assumes call: "get_cam p tc w0 e = (w', e', Inr (Some hm))"
    and acts: "activations e' = Some acts" "shape acts = [n, c, h, w]"
      "length (elems acts) = n * c * h * w"
    and grads: "gradients e' = Some grads" "shape grads = [n, c, h, w]"
      "length (elems grads) = n * c * h * w"
  shows "\<exists>cam. cam_raw acts grads = Inr cam \<and> normalize cam = Inr hm
           \<and> shape cam = [h, w] \<and> length (elems cam) = h * w
           \<and> (\<forall>i<h. \<forall>j<w. elems cam ! (i * w + j) = spec_cam_at acts grads i j)"
proof -
  from get_cam_heatmap [OF call] acts(1) grads(1) obtain cam
    where cam: "cam_raw acts grads = Inr cam" "normalize cam = Inr hm"
    by auto
  let ?m = "h * w"
  let ?xs = "elems acts" and ?gs = "elems grads"
  from cam(1) acts(2) have n: "0 < n"
    by (auto simp: cam_raw_def index0_def split: if_splits)
  then have "1 * (c * ?m) \<le> n * (c * ?m)" by (intro mult_le_mono1) simp
  then have lenx: "c * ?m \<le> length ?xs" and leng: "c * ?m \<le> length ?gs"
    using acts(3) grads(3) by (simp_all add: mult.assoc)
  let ?chans = "chunks ?m c (take (c * ?m) ?xs)"
  let ?ws = "map fmean (chunks ?m c (take (c * ?m) ?gs))"
  have i0: "index0 acts = Inr \<lparr>shape = [c, h, w], elems = take (c * ?m) ?xs\<rparr>"
       "index0 grads = Inr \<lparr>shape = [c, h, w], elems = take (c * ?m) ?gs\<rparr>"
    using n acts(2) grads(2) by (simp_all add: index0_def)
  have ch: "channels \<lparr>shape = [c, h, w], elems = take (c * ?m) ?xs\<rparr> = ?chans"
       "mean_hw \<lparr>shape = [c, h, w], elems = take (c * ?m) ?gs\<rparr> = ?ws"
    by (simp_all add: channels_def mean_hw_def)
  have wc: "weighted_channels ?ws ?chans = Inr (map2 scale ?ws ?chans)"
    by (simp add: weighted_channels_def length_chunks)
  have camv: "cam = \<lparr>shape = [h, w],
      elems = map frelu (sum_channels ?m (map2 scale ?ws ?chans))\<rparr>"
    using cam(1) by (simp add: cam_raw_def i0 ch wc)
  have chan_k: "?chans ! k = map (\<lambda>q. ?xs ! (k * ?m + q)) [0..<?m]" if "k < c" for k
    using that lenx by (rule channel_of_slice)
  have len_chan: "\<forall>ch \<in> set ?chans. length ch = ?m"
  proof
    fix ch assume "ch \<in> set ?chans"
    then obtain k where "k < c" "ch = ?chans ! k"
      by (auto simp: in_set_conv_nth length_chunks)
    with chan_k show "length ch = ?m" by simp
  qed
  have len_scaled: "\<forall>ch \<in> set (map2 scale ?ws ?chans). length ch = ?m"
  proof
    fix ch assume "ch \<in> set (map2 scale ?ws ?chans)"
    then obtain wk ck where "ck \<in> set ?chans" "ch = scale wk ck"
      by (auto dest: set_zip_rightD)
    with len_chan show "length ch = ?m" by (simp add: scale_def)
  qed
  have weight_k: "?ws ! k = spec_weight grads k" if "k < c" for k
  proof -
    have "chunks ?m c (take (c * ?m) ?gs) ! k = map (\<lambda>q. ?gs ! (k * ?m + q)) [0..<?m]"
      using that leng by (rule channel_of_slice)
    then have "?ws ! k = fdiv (fsum (map (\<lambda>q. ?gs ! (k * ?m + q)) [0..<?m])) (real ?m)"
      using that by (simp add: length_chunks fmean_def)
    moreover have "concat (map (\<lambda>i. map (\<lambda>j. spec_at grads 0 k i j) [0..<w]) [0..<h]) =
        map (\<lambda>q. ?gs ! (k * ?m + q)) [0..<?m]"
      using rows_flatten [of "\<lambda>q. ?gs ! (k * ?m + q)" w h] grads(2)
      by (simp add: spec_at_def algebra_simps)
    ultimately show ?thesis
      using grads(2) by (simp add: spec_weight_def)
  qed
  have "elems cam ! (i * w + j) = spec_cam_at acts grads i j" if ij: "i < h" "j < w" for i j
  proof -
    let ?p = "i * w + j"
    from ij have p: "?p < ?m" by (rule index_in_plane)
    have "elems cam ! ?p = frelu (sum_channels ?m (map2 scale ?ws ?chans) ! ?p)"
      using p len_scaled by (simp add: camv length_sum_channels)
    also have "sum_channels ?m (map2 scale ?ws ?chans) ! ?p =
        fsum (map (\<lambda>ch. ch ! ?p) (map2 scale ?ws ?chans))"
      using len_scaled p by (rule nth_sum_channels)
    also have "map (\<lambda>ch. ch ! ?p) (map2 scale ?ws ?chans) =
        map (\<lambda>k. fmul (?ws ! k) (?chans ! k ! ?p)) [0..<length ?chans]"
      using len_chan p by (intro fsum_zip_scale) (simp_all add: length_chunks)
    also have "\<dots> = map (\<lambda>k. fmul (spec_weight grads k) (spec_at acts 0 k i j)) [0..<c]"
    proof -
      have "fmul (?ws ! k) (?chans ! k ! ?p) = fmul (spec_weight grads k) (spec_at acts 0 k i j)"
        if "k < c" for k
        using that p acts(2) by (simp add: weight_k chan_k spec_at_def algebra_simps)
      then show ?thesis by (simp add: length_chunks)
    qed
    finally show ?thesis using acts(2) by (simp add: spec_cam_at_def)
  qed
  moreover have "length (elems cam) = h * w"
    using len_scaled by (simp add: camv length_sum_channels)
  ultimately show ?thesis using cam camv by simp
qed

lemma spec_cam_ex: "spec_cam_at acts_ex grads_ex 1 1 = Fin 2"
  by (simp add: spec_cam_at_def spec_weight_def spec_at_def acts_ex_def grads_ex_def
      upt_rec_numeral upt_conv_Cons)

theorem rectified_map_witness:
  "snd (snd (get_cam good_pass None idle_world engine_c)) = Inr (Some heat_ex)
   \<and> activations (fst (snd (get_cam good_pass None idle_world engine_c))) = Some acts_ex
   \<and> gradients (fst (snd (get_cam good_pass None idle_world engine_c))) = Some grads_ex
   \<and> shape acts_ex = [1, 2, 2, 2] \<and> length (elems acts_ex) = 1 * 2 * 2 * 2
   \<and> shape grads_ex = [1, 2, 2, 2] \<and> length (elems grads_ex) = 1 * 2 * 2 * 2
   \<and> (\<exists>cam. cam_raw acts_ex grads_ex = Inr cam \<and> normalize cam = Inr heat_ex
          \<and> shape cam = [2, 2]
          \<and> elems cam ! (1 * 2 + 1) = spec_cam_at acts_ex grads_ex 1 1)
   \<and> spec_cam_at acts_ex grads_ex 1 1 = Fin 2"
proof -
  have a: "activations (fst (snd (get_cam good_pass None idle_world engine_c))) = Some acts_ex"
    and g: "gradients (fst (snd (get_cam good_pass None idle_world engine_c))) = Some grads_ex"
    using get_cam_ex by simp_all
  have sa: "shape acts_ex = [1, 2, 2, 2]" and la: "length (elems acts_ex) = 1 * 2 * 2 * 2"
    and sg: "shape grads_ex = [1, 2, 2, 2]" and lg: "length (elems grads_ex) = 1 * 2 * 2 * 2"
    by (simp_all add: acts_ex_def grads_ex_def)
  from rectified_map_is_weighted_channel_sum [OF get_cam_ex_triple a sa la g sg lg]
  obtain cam where cam: "cam_raw acts_ex grads_ex = Inr cam" "normalize cam = Inr heat_ex"
      "shape cam = [2, 2]"
      "\<forall>i<2. \<forall>j<2. elems cam ! (i * 2 + j) = spec_cam_at acts_ex grads_ex i j"
    by blast
  have "(1::nat) < 2" by simp
  with cam(4) have "elems cam ! (1 * 2 + 1) = spec_cam_at acts_ex grads_ex 1 1"
    by blast
  with cam(1-3) have "\<exists>cam. cam_raw acts_ex grads_ex = Inr cam \<and> normalize cam = Inr heat_ex
          \<and> shape cam = [2, 2]
          \<and> elems cam ! (1 * 2 + 1) = spec_cam_at acts_ex grads_ex 1 1"
    by blast
  then show ?thesis
    using get_cam_ex sa la sg lg spec_cam_ex by simp
qed

section \<open>Properties of the overlay\<close>

declare bit_length.simps [simp del]

lemma bit_length_0: "bit_length 0 = 0"
  by (simp add: bit_length.simps)

lemma bit_length_pos: "0 < n \<Longrightarrow> bit_length n = Suc (bit_length (n div 2))"
  by (subst bit_length.simps) simp

lemma bit_length_shift: "2 ^ k \<le> n \<Longrightarrow> bit_length n = k + bit_length (n div 2 ^ k)"
proof (induction k arbitrary: n)
  case 0
  then show ?case by simp
next
  case (Suc k)
  then have pos: "0 < n"
    by (cases "n = 0") simp_all
  from Suc.prems have "2 ^ k \<le> n div 2" by simp
  from Suc.IH [OF this] have "bit_length (n div 2) = k + bit_length (n div 2 div 2 ^ k)" .
  moreover have "n div 2 div 2 ^ k = n div 2 ^ Suc k"
    by (simp add: div_mult2_eq)
  ultimately show ?case
    using pos by (simp add: bit_length_pos)
qed

text \<open>Evaluation rules for numerals: one bit, eight bits or forty bits at a time.\<close>

lemma bit_length_step1: "0 < n \<and> n < 256 \<Longrightarrow> bit_length n = Suc (bit_length (n div 2))"
  by (simp add: bit_length_pos)

lemma bit_length_step8:
  "256 \<le> n \<and> n < 1099511627776 \<Longrightarrow> bit_length n = 8 + bit_length (n div 256)"
  using bit_length_shift [of 8 n] by simp

lemma bit_length_step40:
  "1099511627776 \<le> n \<Longrightarrow> bit_length n = 40 + bit_length (n div 1099511627776)"
  using bit_length_shift [of 40 n] by simp

lemmas bit_length_eval = bit_length_0 bit_length_step1 bit_length_step8 bit_length_step40

text \<open>The constant is the double nearest to \<open>192 / 255\<close>.\<close>

lemma default_ratio_nearest:
  "\<bar>192 / 255 - real default_ratio / 2 ^ 53\<bar> < 1 / 2 ^ 54"
  by (simp add: default_ratio_def abs_if field_simps)

text \<open>All 256 entries of the lookup table, by halving the range eight times.\<close>

lemma all_less_Bit0:
  "(\<forall>v<numeral (Num.Bit0 k). P v) \<longleftrightarrow> (\<forall>v<numeral k. P (2 * v) \<and> P (2 * v + 1))"
  for P :: "nat \<Rightarrow> bool"
proof -
  have nb: "(numeral (Num.Bit0 k) :: nat) = 2 * numeral k"
    by (metis mult_2 numeral_Bit0)
  show ?thesis
  proof
    assume a: "\<forall>v<numeral (Num.Bit0 k). P v"
    show "\<forall>v<numeral k. P (2 * v) \<and> P (2 * v + 1)"
    proof (intro allI impI)
      fix v :: nat
      assume "v < numeral k"
      then have "2 * v < numeral (Num.Bit0 k)" "2 * v + 1 < numeral (Num.Bit0 k)"
        unfolding nb by linarith+
      with a show "P (2 * v) \<and> P (2 * v + 1)" by blast
    qed
  next
    assume a: "\<forall>v<numeral k. P (2 * v) \<and> P (2 * v + 1)"
    show "\<forall>v<numeral (Num.Bit0 k). P v"
    proof (intro allI impI)
      fix v :: nat
      assume "v < numeral (Num.Bit0 k)"
      then have "v div 2 < numeral k"
        unfolding nb by linarith
      with a have "P (2 * (v div 2)) \<and> P (2 * (v div 2) + 1)" by blast
      moreover have "v = 2 * (v div 2) \<or> v = 2 * (v div 2) + 1" by linarith
      ultimately show "P v" by metis
    qed
  qed
qed

lemma all_less_1: "(\<forall>v<(1::nat). P v) \<longleftrightarrow> P 0"
  by simp

lemma alpha_all: "\<forall>v<256. alpha_of default_ratio v = v * 192 div 255"
  apply (simp only: all_less_Bit0 all_less_1)
  apply (simp add: alpha_of_def default_ratio_def round_sig53_def bit_length_eval Let_def)
  done

lemma alpha_table:
  "map (alpha_of default_ratio) [0..<256] = map (\<lambda>v. v * 192 div 255) [0..<256]"
  using alpha_all by simp

lemma alpha_255: "alpha_of default_ratio 255 = 192"
  by (simp add: alpha_of_def default_ratio_def round_sig53_def bit_length_eval Let_def)

lemma doublings_numeral:
  "doublings (numeral n) x =
     (if 128 \<le> x then 0 else Suc (doublings (pred_numeral n) (2 * x)))"
  by (simp add: numeral_eq_Suc)

lemma to_uint8_one: "to_uint8 (clip01 (Fin 1)) = 255"
  by (simp add: round_f32_def round_half_even_def doublings_numeral Let_def)

lemma to_uint8_rounds_up: "to_uint8 (clip01 (Fin (8454401 / 2 ^ 24))) = 129"
  by (simp add: round_f32_def round_half_even_def doublings_numeral Let_def)

lemma quantize_8bit: "list_all (\<lambda>v. v < 256) (quantize hm)"
proof -
  have "to_uint8 x < 256" for x
    by (cases x) simp_all
  then show ?thesis by (simp add: quantize_def list_all_iff)
qed

lemma alpha_8bit: "v < 256 \<Longrightarrow> alpha_of default_ratio v = v * 192 div 255"
  using alpha_all by simp

lemma tint_layer_8bit:
  "list_all (\<lambda>v. v < 256) vs \<Longrightarrow>
     map (\<lambda>v. (255, 0, 0, alpha_of default_ratio v)) vs =
     map (\<lambda>v. (255, 0, 0, v * 192 div 255)) vs"
  by (simp add: list_all_iff alpha_8bit)

lemma overlay_of_matrix:
  "shape hm = [h, w] \<Longrightarrow>
     rgba_heatmap_overlay resample ratio base hm =
       Inr (tint_over ratio base
              (resize resample (im_size base) \<lparr>im_size = (w, h), im_data = L (quantize hm)\<rparr>))"
  by (simp add: rgba_heatmap_overlay_def first_of_last_axis_def fromarray_L_def)

text \<open>
  Claim C9. A 4 by 4 heatmap of ones over a 4 by 4 black image, with the default red
  tint and the default maximal alpha 192, gives a 4 by 4 image whose every pixel is
  \<open>(192, 0, 0)\<close> at full opacity. In general, for a heatmap of shape \<open>(h, w)\<close> over
  a base image of any size, every pixel of the result is the base pixel composited with
  the red pixel whose alpha is the intensity at that pixel scaled linearly into 0 to 192
  (\<open>v * 192 div 255\<close> for the 8-bit intensity \<open>v\<close>): the intensity resampled to the
  size of the base image when the sizes differ, the quantised heatmap itself when they
  agree.
\<close>

theorem overlay_of_full_heat_on_black:
  "rgba_heatmap_overlay resample default_ratio black4 ones4 =
     Inr \<lparr>im_size = (4, 4), im_data = RGBA (replicate 16 (192, 0, 0, 255))\<rparr>
   \<and> map (alpha_of default_ratio) [0..<256] = map (\<lambda>v. v * 192 div 255) [0..<256]
   \<and> (\<forall>base hm h w.
         shape hm = [h, w] \<and> (w, h) \<noteq> im_size base
         \<and> list_all (\<lambda>v. v < 256)
              (resample (im_size base) \<lparr>im_size = (w, h), im_data = L (quantize hm)\<rparr>)
       \<longrightarrow> rgba_heatmap_overlay resample default_ratio base hm =
             Inr \<lparr>im_size = im_size base,
                  im_data = RGBA (map2 composite_pixel (rgba_pixels base)
                    (map (\<lambda>v. (255, 0, 0, v * 192 div 255))
                       (resample (im_size base)
                          \<lparr>im_size = (w, h), im_data = L (quantize hm)\<rparr>)))\<rparr>)
   \<and> (\<forall>base hm h w.
         shape hm = [h, w] \<and> (w, h) = im_size base
       \<longrightarrow> rgba_heatmap_overlay resample default_ratio base hm =
             Inr \<lparr>im_size = im_size base,
                  im_data = RGBA (map2 composite_pixel (rgba_pixels base)
                    (map (\<lambda>v. (255, 0, 0, v * 192 div 255)) (quantize hm)))\<rparr>)"
proof -
  have "rgba_heatmap_overlay resample default_ratio black4 ones4 =
     Inr \<lparr>im_size = (4, 4), im_data = RGBA (replicate 16 (192, 0, 0, 255))\<rparr>"
    by (simp add: rgba_heatmap_overlay_def first_of_last_axis_def ones4_def black4_def
        fromarray_L_def quantize_def to_uint8_one [simplified] resize_def tint_over_def
        rgba_pixels_def convert_rgba_def gray_pixels_def alpha_255 blend_channel_def
        shift_for_div255_def Let_def zip_replicate map_replicate_const)
  moreover have "rgba_heatmap_overlay resample default_ratio base hm =
      Inr \<lparr>im_size = im_size base,
           im_data = RGBA (map2 composite_pixel (rgba_pixels base)
             (map (\<lambda>v. (255, 0, 0, v * 192 div 255))
                (resample (im_size base) \<lparr>im_size = (w, h), im_data = L (quantize hm)\<rparr>)))\<rparr>"
    if "shape hm = [h, w] \<and> (w, h) \<noteq> im_size base
        \<and> list_all (\<lambda>v. v < 256)
             (resample (im_size base) \<lparr>im_size = (w, h), im_data = L (quantize hm)\<rparr>)"
    for base hm h w
    using that
    by (simp add: overlay_of_matrix resize_def tint_over_def gray_pixels_def tint_layer_8bit)
  moreover have "rgba_heatmap_overlay resample default_ratio base hm =
      Inr \<lparr>im_size = im_size base,
           im_data = RGBA (map2 composite_pixel (rgba_pixels base)
             (map (\<lambda>v. (255, 0, 0, v * 192 div 255)) (quantize hm)))\<rparr>"
    if "shape hm = [h, w] \<and> (w, h) = im_size base" for base hm h w
    using that quantize_8bit [of hm]
    by (simp add: overlay_of_matrix resize_def tint_over_def gray_pixels_def tint_layer_8bit)
  ultimately show ?thesis
    using alpha_table by blast
qed

lemma quantize_warm: "quantize warm11 = [129]"
  using to_uint8_rounds_up by (simp add: quantize_def warm11_def)

lemma composite_97: "composite_pixel (0, 0, 0, 255) (255, 0, 0, 97) = (97, 0, 0, 255)"
  by (simp add: blend_channel_def shift_for_div255_def Let_def)

theorem overlay_on_wider_image_witness:
  "shape warm11 = [1, 1] \<and> (1, 1) \<noteq> im_size black21
   \<and> spread (im_size black21) \<lparr>im_size = (1, 1), im_data = L (quantize warm11)\<rparr> = [129, 129]
   \<and> rgba_heatmap_overlay spread default_ratio black21 warm11 =
       Inr \<lparr>im_size = (2, 1), im_data = RGBA [(97, 0, 0, 255), (97, 0, 0, 255)]\<rparr>"
proof -
  have s: "shape warm11 = [1, 1]" and d: "(1, 1) \<noteq> im_size black21"
    by (simp_all add: warm11_def black21_def)
  have r: "spread (im_size black21) \<lparr>im_size = (1, 1), im_data = L (quantize warm11)\<rparr> =
      [129, 129]"
    by (simp add: spread_def black21_def gray_pixels_def quantize_warm numeral_2_eq_2)
  then have b: "list_all (\<lambda>v. v < 256)
      (spread (im_size black21) \<lparr>im_size = (1, 1), im_data = L (quantize warm11)\<rparr>)"
    by simp
  from overlay_of_full_heat_on_black [of spread] s d b
  have "rgba_heatmap_overlay spread default_ratio black21 warm11 =
      Inr \<lparr>im_size = im_size black21,
           im_data = RGBA (map2 composite_pixel (rgba_pixels black21)
             (map (\<lambda>v. (255, 0, 0, v * 192 div 255))
                (spread (im_size black21)
                   \<lparr>im_size = (1, 1), im_data = L (quantize warm11)\<rparr>)))\<rparr>"
    by blast
  then have "rgba_heatmap_overlay spread default_ratio black21 warm11 =
      Inr \<lparr>im_size = (2, 1), im_data = RGBA [(97, 0, 0, 255), (97, 0, 0, 255)]\<rparr>"
    unfolding r
    by (simp add: black21_def rgba_pixels_def convert_rgba_def composite_97
        del: composite_pixel.simps)
  with s d r show ?thesis by simp
qed

text \<open>
  Claim C10. An absent heatmap is no error at the rendering boundary:
  \<open>tensor_to_base64_overlay\<close> returns the empty string and \<open>GradCAM.overlay\<close> returns
  the base image as it is.
\<close>

theorem absent_heatmap_is_not_rendered:
  "tensor_to_base64_overlay encode_png resample base None = Inr []
   \<and> overlay utils_imported resample base None = Inr base"
  by (simp add: tensor_to_base64_overlay_def overlay_def)

end
